theory Spec2Isabelle
  imports Complex_Main "HOL-Library.Sublist"
begin

section \<open>RTO-Validator: the coverage-scoring core of client/src/App.jsx\<close>

text \<open>
  The development embeds \<open>tokenize\<close>, \<open>coverageCheck\<close>, \<open>buildReportFromTGA\<close> and
  \<open>validate\<close> of \<^verbatim>\<open>client/src/App.jsx\<close>.

  Strings. A JavaScript string is a sequence of UTF-16 code units; here it is a
  \<^typ>\<open>string\<close>, so the model covers the texts whose code units are below 256
  (ASCII and Latin-1). A value that may be \<^verbatim>\<open>undefined\<close>, \<^verbatim>\<open>null\<close> or absent is an
  \<^typ>\<open>'a option\<close>.

  Numbers. The source computes with IEEE doubles in three places:
  \<^verbatim>\<open>present / key.length >= 0.35\<close>, \<^verbatim>\<open>Math.round((covered * 100) / targets.length)\<close>
  and \<^verbatim>\<open>Math.round(pcCov.percentage * 0.6 + keCov.percentage * 0.4)\<close>. They are
  modelled over \<^typ>\<open>rat\<close>. The first two are quotients of integers below \<open>2^32\<close>
  (array lengths), whose distance to \<open>7/20\<close> resp. to a half-integer is either zero or
  far above the rounding error of one division; the third has an exact value that is a
  multiple of \<open>1/5\<close>, so it never lies within rounding error of a half-integer. On these
  inputs the double computation and the exact one agree.
\<close>

subsection \<open>Tokenizer\<close>

text \<open>
  \<^verbatim>\<open>const STOP = new Set(["the","and","a", ...]);\<close>
\<close>

definition STOP :: "string list" where
  "STOP = [''the'', ''and'', ''a'', ''an'', ''for'', ''to'', ''of'', ''in'', ''on'', ''by'',
           ''with'', ''as'', ''that'', ''are'', ''is'', ''be'', ''or'', ''at'',
           ''from'', ''this'', ''it'', ''into'', ''over'', ''under'', ''up'', ''down'',
           ''across'', ''about'', ''between'', ''their'', ''your'',
           ''you'', ''we'', ''our'', ''they'']"

text \<open>\<^verbatim>\<open>String.prototype.toLowerCase\<close> on one code unit below 256: the ASCII capitals
  and the Latin-1 capitals \<open>0xC0..0xDE\<close> (without the multiplication sign \<open>0xD7\<close>) move
  up by 32.\<close>

definition lower_char :: "char \<Rightarrow> char" where
  "lower_char c =
     (let n = (of_char c :: nat)
      in if (65 \<le> n \<and> n \<le> 90) \<or> (192 \<le> n \<and> n \<le> 222 \<and> n \<noteq> 215)
         then char_of (n + 32) else c)"

definition toLowerCase :: "string \<Rightarrow> string" where
  "toLowerCase s = map lower_char s"

text \<open>The character class \<^verbatim>\<open>[a-z0-9]\<close>.\<close>

definition is_az09 :: "char \<Rightarrow> bool" where
  "is_az09 c =
     (let n = (of_char c :: nat) in (97 \<le> n \<and> n \<le> 122) \<or> (48 \<le> n \<and> n \<le> 57))"

text \<open>The class \<^verbatim>\<open>\s\<close> below 256: tab, line feed, vertical tab, form feed, carriage
  return, space and the no-break space.\<close>

definition is_space :: "char \<Rightarrow> bool" where
  "is_space c = ((of_char c :: nat) \<in> {9, 10, 11, 12, 13, 32, 160})"

text \<open>\<^verbatim>\<open>.replace(/[^a-z0-9\s]/g, " ")\<close>\<close>

definition replace_other :: "string \<Rightarrow> string" where
  "replace_other s = map (\<lambda>c. if is_az09 c \<or> is_space c then c else CHR '' '') s"

text \<open>
  \<^verbatim>\<open>.split(/\s+/)\<close>: the pieces between the maximal runs of whitespace. A run at the
  start or at the end of the string leaves an empty piece there, and the empty string
  splits into one empty piece. \<open>split_from cur s\<close> holds the piece read so far.
\<close>

function split_from :: "string \<Rightarrow> string \<Rightarrow> string list" where
  "split_from cur [] = [cur]"
| "split_from cur (c # cs) =
     (if is_space c then cur # split_from [] (dropWhile is_space cs)
      else split_from (cur @ [c]) cs)"
  by pat_completeness auto
termination
  by (relation "measure (\<lambda>(cur, s). length s)")
     (auto simp: length_dropWhile_le less_Suc_eq_le)

definition split_ws :: "string \<Rightarrow> string list" where
  "split_ws s = split_from [] s"

text \<open>
  \<^verbatim>\<open>
  const tokenize = (t) =>
    (t || "").toLowerCase().replace(/[^a-z0-9\s]/g, " ").split(/\s+/)
      .filter((w) => w && !STOP.has(w));
  \<close>
  \<^verbatim>\<open>t || ""\<close> turns \<^verbatim>\<open>undefined\<close> into the empty string.
\<close>

definition or_empty :: "string option \<Rightarrow> string" where
  "or_empty t = (case t of None \<Rightarrow> [] | Some s \<Rightarrow> s)"

definition tokenize :: "string option \<Rightarrow> string list" where
  "tokenize t =
     filter (\<lambda>w. w \<noteq> [] \<and> w \<notin> set STOP)
       (split_ws (replace_other (toLowerCase (or_empty t))))"

subsection \<open>Coverage evaluator\<close>

record requirement =
  req_code :: "string option"
  req_text :: "string option"

record coverage_result =
  total_n :: int
  assessed :: int
  percentage :: int
  missing :: "string list"

datatype error = TypeError

text \<open>\<^verbatim>\<open>Math.round\<close>: the nearest integer, a tie going up.\<close>

definition Math_round :: "rat \<Rightarrow> int" where
  "Math_round x = \<lfloor>x + 1 / 2\<rfloor>"

text \<open>
  \<^verbatim>\<open>t.code || t.text.slice(0, 60)\<close>: a code that is absent or empty is falsy; then
  \<^verbatim>\<open>slice\<close> is called on the text and raises a TypeError when the text is \<^verbatim>\<open>undefined\<close>.
\<close>

definition truthy :: "string option \<Rightarrow> bool" where
  "truthy t = (case t of None \<Rightarrow> False | Some s \<Rightarrow> s \<noteq> [])"

definition label :: "requirement \<Rightarrow> error + string" where
  "label t =
     (if truthy (req_code t) then Inr (the (req_code t))
      else case req_text t of None \<Rightarrow> Inl TypeError | Some s \<Rightarrow> Inr (take 60 s))"

definition present_count :: "string set \<Rightarrow> string list \<Rightarrow> nat" where
  "present_count textTokens key = length (filter (\<lambda>k. k \<in> textTokens) key)"

text \<open>
  The loop of \<open>coverageCheck\<close>, with its two variables \<^verbatim>\<open>missing\<close> (here \<open>miss\<close>) and \<^verbatim>\<open>covered\<close>:
  \<^verbatim>\<open>
  for (const t of targets) {
    const key = tokenize(t.text);
    if (!key.length) continue;
    const present = key.filter((k) => textTokens.has(k)).length;
    const ratio = present / key.length;
    if (ratio >= 0.35) covered += 1;
    else missing.push(t.code || t.text.slice(0, 60));
  }
  \<close>
\<close>

fun coverage_loop ::
  "string set \<Rightarrow> requirement list \<Rightarrow> string list \<Rightarrow> int \<Rightarrow> error + (string list \<times> int)"
where
  "coverage_loop textTokens [] miss covered = Inr (miss, covered)"
| "coverage_loop textTokens (t # ts) miss covered =
     (let key = tokenize (req_text t)
      in if key = [] then coverage_loop textTokens ts miss covered
         else
           let present = present_count textTokens key;
               ratio = (of_nat present :: rat) / of_nat (length key)
           in if ratio \<ge> 35 / 100 then coverage_loop textTokens ts miss (covered + 1)
              else case label t of
                     Inl e \<Rightarrow> Inl e
                   | Inr l \<Rightarrow> coverage_loop textTokens ts (miss @ [l]) covered)"

text \<open>
  \<^verbatim>\<open>
  const coverageCheck = (fullText, targets) => {
    const textTokens = new Set(tokenize(fullText || ""));
    const missing = []; let covered = 0;
    for ... ;
    return { total: targets.length, assessed: covered,
      percentage: targets.length ? Math.round((covered * 100) / targets.length) : 0,
      missing };
  };
  \<close>
\<close>

definition coverageCheck :: "string option \<Rightarrow> requirement list \<Rightarrow> error + coverage_result" where
  "coverageCheck fullText targets =
     (let textTokens = set (tokenize (Some (or_empty fullText)))
      in case coverage_loop textTokens targets [] 0 of
           Inl e \<Rightarrow> Inl e
         | Inr (miss, covered) \<Rightarrow>
             Inr \<lparr> total_n = int (length targets),
                   assessed = covered,
                   percentage =
                     (if length targets \<noteq> 0
                      then Math_round (of_int (covered * 100) / of_nat (length targets))
                      else 0),
                   missing = miss \<rparr>)"

subsection \<open>Unit report builder\<close>

text \<open>The payload of the unit-definition provider, as \<open>buildReportFromTGA\<close> reads it.
  Every field may be absent.\<close>

record unit_info =
  unit_code :: "string option"
  unit_title :: "string option"

record pc_entry =
  pcCode :: "string option"
  description :: "string option"

record tga_payload =
  found :: "bool option"
  pl_unit :: "unit_info option"
  pl_code :: "string option"
  pl_title :: "string option"
  pl_url :: "string option"
  elementsAndPC :: "pc_entry list option"
  knowledgeEvidence :: "string option list option"

text \<open>The string constants \<^verbatim>\<open>"pass"\<close>, \<^verbatim>\<open>"warning"\<close>, \<^verbatim>\<open>"fail"\<close>; \<^verbatim>\<open>"critical"\<close>,
  \<^verbatim>\<open>"improvement"\<close>; \<^verbatim>\<open>"HIGH"\<close>, \<^verbatim>\<open>"MEDIUM"\<close>.\<close>

datatype status = Pass | Warning | Fail

datatype gap_type = Critical | Improvement

datatype priority = HIGH | MEDIUM

record entry =
  status :: status
  score :: int

record rules_of_evidence =
  roe_validity :: entry
  roe_sufficiency :: entry
  roe_authenticity :: entry
  roe_currency :: entry

record principles_of_assessment =
  poa_fairness :: entry
  poa_flexibility :: entry
  poa_validity :: entry
  poa_reliability :: entry

record gap =
  gap_type :: gap_type
  element :: string
  gap_description :: string
  recommendation :: string
  priority :: priority

record report_unit =
  code :: "string option"
  title :: string
  url :: "string option"

record coverage =
  performanceCriteria :: coverage_result
  knowledge :: coverage_result

record report =
  rep_unit :: report_unit
  rep_coverage :: coverage
  rulesOfEvidence :: rules_of_evidence
  principlesOfAssessment :: principles_of_assessment
  gaps :: "gap list"

text \<open>The decimal numeral of a natural number, as the template literal
  \<^verbatim>\<open>`K${i + 1}`\<close> prints it.\<close>

function decimal :: "nat \<Rightarrow> string" where
  "decimal n =
     (if n < 10 then [char_of (48 + n)]
      else decimal (n div 10) @ [char_of (48 + n mod 10)])"
  by pat_completeness auto
termination
  by (relation "measure id") auto

text \<open>
  \<^verbatim>\<open>
  const unit = tgaPayload.unit?.code
    ? { code: tgaPayload.unit.code, title: tgaPayload.unit.title || tgaPayload.title || "", url: tgaPayload.url }
    : { code: tgaPayload.code, title: tgaPayload.title || "", url: tgaPayload.url };
  \<close>
\<close>

definition normalize_unit :: "tga_payload \<Rightarrow> report_unit" where
  "normalize_unit p =
     (case pl_unit p of
        Some u \<Rightarrow>
          if truthy (unit_code u)
          then \<lparr> code = unit_code u,
                 title = (if truthy (unit_title u) then or_empty (unit_title u)
                          else or_empty (pl_title p)),
                 url = pl_url p \<rparr>
          else \<lparr> code = pl_code p, title = or_empty (pl_title p), url = pl_url p \<rparr>
      | None \<Rightarrow> \<lparr> code = pl_code p, title = or_empty (pl_title p), url = pl_url p \<rparr>)"

text \<open>
  \<^verbatim>\<open>
  const pcs = (tgaPayload.elementsAndPC || [])
    .filter((p) => p.pcCode && p.description)
    .map((p) => ({ code: `PC ${p.pcCode}`, text: p.description }));
  const kes = (tgaPayload.knowledgeEvidence || []).map((t, i) => ({ code: `K${i + 1}`, text: t }));
  \<close>
\<close>

definition or_nil :: "'a list option \<Rightarrow> 'a list" where
  "or_nil xs = (case xs of None \<Rightarrow> [] | Some ys \<Rightarrow> ys)"

definition pcs_of :: "tga_payload \<Rightarrow> requirement list" where
  "pcs_of p =
     map (\<lambda>e. \<lparr> req_code = Some (''PC '' @ or_empty (pcCode e)), req_text = description e \<rparr>)
       (filter (\<lambda>e. truthy (pcCode e) \<and> truthy (description e)) (or_nil (elementsAndPC p)))"

definition kes_of :: "tga_payload \<Rightarrow> requirement list" where
  "kes_of p =
     map (\<lambda>(i, t). \<lparr> req_code = Some (''K'' @ decimal (i + 1)), req_text = t \<rparr>)
       (enumerate 0 (or_nil (knowledgeEvidence p)))"

definition pc_gap :: "string \<Rightarrow> gap" where
  "pc_gap pc =
     \<lparr> gap_type = Critical, element = pc,
       gap_description = ''Performance criterion not clearly evidenced in assessment text.'',
       recommendation = ''Add/clarify an assessment task or marking checklist item for this PC.'',
       priority = HIGH \<rparr>"

definition ke_gap :: "string \<Rightarrow> gap" where
  "ke_gap k =
     \<lparr> gap_type = Improvement, element = k,
       gap_description = ''Knowledge evidence coverage could be strengthened.'',
       recommendation = ''Add a short-answer/scenario question to explicitly test this knowledge.'',
       priority = MEDIUM \<rparr>"

text \<open>
  The rest of \<open>buildReportFromTGA\<close>, from the two coverage results:
  \<^verbatim>\<open>
  const sufficiency = Math.min(100, Math.round(pcCov.percentage * 0.6 + keCov.percentage * 0.4));
  const validity = pcCov.percentage;
  const rulesOfEvidence = {
    validity: { status: validity >= 85 ? "pass" : validity >= 70 ? "warning" : "fail", score: validity },
    sufficiency: { status: sufficiency >= 90 ? "pass" : sufficiency >= 75 ? "warning" : "fail", score: sufficiency },
    authenticity: { status: "pass", score: 100 },
    currency: { status: "pass", score: 100 },
  };
  const principlesOfAssessment = {
    fairness: { status: "pass", score: 95 },
    flexibility: { status: "pass", score: 90 },
    validity: { status: rulesOfEvidence.validity.status, score: validity },
    reliability: { status: "pass", score: 92 },
  };
  const gaps = [];
  pcCov.missing.slice(0, 5).forEach((pc) => gaps.push({ type: "critical", ... }));
  keCov.missing.slice(0, 5).forEach((k) => gaps.push({ type: "improvement", ... }));
  \<close>
\<close>

definition assemble :: "report_unit \<Rightarrow> coverage_result \<Rightarrow> coverage_result \<Rightarrow> report" where
  "assemble u pcCov keCov =
     (let sufficiency =
            min 100 (Math_round (of_int (percentage pcCov) * (6 / 10)
                                 + of_int (percentage keCov) * (4 / 10)));
          validity = percentage pcCov;
          roe = \<lparr> roe_validity =
                    \<lparr> status = (if validity \<ge> 85 then Pass
                                 else if validity \<ge> 70 then Warning else Fail),
                      score = validity \<rparr>,
                  roe_sufficiency =
                    \<lparr> status = (if sufficiency \<ge> 90 then Pass
                                 else if sufficiency \<ge> 75 then Warning else Fail),
                      score = sufficiency \<rparr>,
                  roe_authenticity = \<lparr> status = Pass, score = 100 \<rparr>,
                  roe_currency = \<lparr> status = Pass, score = 100 \<rparr> \<rparr>;
          poa = \<lparr> poa_fairness = \<lparr> status = Pass, score = 95 \<rparr>,
                  poa_flexibility = \<lparr> status = Pass, score = 90 \<rparr>,
                  poa_validity = \<lparr> status = status (roe_validity roe), score = validity \<rparr>,
                  poa_reliability = \<lparr> status = Pass, score = 92 \<rparr> \<rparr>
      in \<lparr> rep_unit = u,
           rep_coverage = \<lparr> performanceCriteria = pcCov, knowledge = keCov \<rparr>,
           rulesOfEvidence = roe,
           principlesOfAssessment = poa,
           gaps = map pc_gap (take 5 (missing pcCov)) @ map ke_gap (take 5 (missing keCov)) \<rparr>)"

text \<open>\<open>buildReportFromTGA\<close> reads the state variable \<^verbatim>\<open>assessmentText\<close>; here it is the
  first argument. An exception of \<open>coverageCheck\<close> leaves the function.\<close>

definition buildReportFromTGA :: "string \<Rightarrow> tga_payload \<Rightarrow> error + report" where
  "buildReportFromTGA assessmentText tgaPayload =
     (case coverageCheck (Some assessmentText) (pcs_of tgaPayload) of
        Inl e \<Rightarrow> Inl e
      | Inr pcCov \<Rightarrow>
          (case coverageCheck (Some assessmentText) (kes_of tgaPayload) of
             Inl e \<Rightarrow> Inl e
           | Inr keCov \<Rightarrow> Inr (assemble (normalize_unit tgaPayload) pcCov keCov)))"

subsection \<open>Multi-unit aggregator\<close>

text \<open>The state of the component \<open>App\<close> (its \<^verbatim>\<open>useState\<close> variables). The uploaded
  file is represented by its name.\<close>

datatype tab = Upload | Results

record app_state =
  activeTab :: tab
  assessmentFile :: "string option"
  assessmentText :: string
  detectedUoCs :: "string list"
  reports :: "report list"
  activeReportIdx :: nat
  isProcessing :: bool
  uploadError :: string

text \<open>The outcome of one promise of \<^verbatim>\<open>Promise.allSettled\<close>: rejected, or fulfilled
  with a payload or with \<^verbatim>\<open>null\<close>.\<close>

datatype settled = Rejected | Fulfilled "tga_payload option"

text \<open>
  \<^verbatim>\<open>Promise.allSettled\<close> keeps one slot per promise, in the order of its argument, fills
  the slot of a promise when that promise settles, and resolves once every slot is
  filled. \<open>order\<close> lists the indices of the promises in the order in which they settle;
  \<open>None\<close> says that some promise has not settled, so the \<^verbatim>\<open>await\<close> has not returned.
\<close>

definition allSettled :: "nat list \<Rightarrow> 'a list \<Rightarrow> 'a list option" where
  "allSettled order outcomes =
     those (fold (\<lambda>i slots. if i < length outcomes then slots[i := Some (outcomes ! i)] else slots)
              order (replicate (length outcomes) None))"

definition empty_coverage :: coverage_result where
  "empty_coverage = \<lparr> total_n = 0, assessed = 0, percentage = 0, missing = [] \<rparr>"

text \<open>The report of the branch \<^verbatim>\<open>if (!detectedUoCs.length)\<close>.\<close>

definition no_uoc_report :: report where
  "no_uoc_report =
     \<lparr> rep_unit = \<lparr> code = Some ''N/A'', title = ''No UoC detected'', url = None \<rparr>,
       rep_coverage = \<lparr> performanceCriteria = empty_coverage, knowledge = empty_coverage \<rparr>,
       rulesOfEvidence =
         \<lparr> roe_validity = \<lparr> status = Fail, score = 0 \<rparr>,
           roe_sufficiency = \<lparr> status = Fail, score = 0 \<rparr>,
           roe_authenticity = \<lparr> status = Warning, score = 50 \<rparr>,
           roe_currency = \<lparr> status = Warning, score = 50 \<rparr> \<rparr>,
       principlesOfAssessment =
         \<lparr> poa_fairness = \<lparr> status = Warning, score = 50 \<rparr>,
           poa_flexibility = \<lparr> status = Warning, score = 50 \<rparr>,
           poa_validity = \<lparr> status = Fail, score = 0 \<rparr>,
           poa_reliability = \<lparr> status = Warning, score = 50 \<rparr> \<rparr>,
       gaps =
         [\<lparr> gap_type = Critical, element = ''UoC'',
            gap_description = ''No valid UoC detected in document.'',
            recommendation =
              ''Ensure the assessment references the correct Unit code(s) per Training.gov.au.'',
            priority = HIGH \<rparr>] \<rparr>"

text \<open>The report of a unit whose lookup failed.\<close>

definition failure_report :: "string \<Rightarrow> report" where
  "failure_report c =
     \<lparr> rep_unit = \<lparr> code = Some c, title = ''No TGA details available'', url = None \<rparr>,
       rep_coverage = \<lparr> performanceCriteria = empty_coverage, knowledge = empty_coverage \<rparr>,
       rulesOfEvidence =
         \<lparr> roe_validity = \<lparr> status = Fail, score = 0 \<rparr>,
           roe_sufficiency = \<lparr> status = Fail, score = 0 \<rparr>,
           roe_authenticity = \<lparr> status = Warning, score = 50 \<rparr>,
           roe_currency = \<lparr> status = Warning, score = 50 \<rparr> \<rparr>,
       principlesOfAssessment =
         \<lparr> poa_fairness = \<lparr> status = Warning, score = 50 \<rparr>,
           poa_flexibility = \<lparr> status = Warning, score = 50 \<rparr>,
           poa_validity = \<lparr> status = Fail, score = 0 \<rparr>,
           poa_reliability = \<lparr> status = Warning, score = 50 \<rparr> \<rparr>,
       gaps =
         [\<lparr> gap_type = Critical, element = c,
            gap_description = ''Could not fetch details from training.gov.au for this code.'',
            recommendation = ''Check the unit code or try again later.'',
            priority = HIGH \<rparr>] \<rparr>"

text \<open>
  \<^verbatim>\<open>settled.status !== "fulfilled" || !settled.value || settled.value.found === false\<close>
\<close>

definition lookup_failed :: "settled \<Rightarrow> bool" where
  "lookup_failed r =
     (case r of
        Rejected \<Rightarrow> True
      | Fulfilled None \<Rightarrow> True
      | Fulfilled (Some p) \<Rightarrow> found p = Some False)"

text \<open>The callback of \<^verbatim>\<open>results.map((settled, idx) => ...)\<close>, with
  \<^verbatim>\<open>code = detectedUoCs[idx]\<close>.\<close>

definition per_unit :: "string \<Rightarrow> string \<Rightarrow> settled \<Rightarrow> error + report" where
  "per_unit txt c r =
     (case r of
        Rejected \<Rightarrow> Inr (failure_report c)
      | Fulfilled None \<Rightarrow> Inr (failure_report c)
      | Fulfilled (Some p) \<Rightarrow>
          if found p = Some False then Inr (failure_report c)
          else buildReportFromTGA txt p)"

text \<open>\<^verbatim>\<open>Array.prototype.map\<close> with a callback that may throw: the first exception ends it.\<close>

fun map_throwing :: "('a \<Rightarrow> error + 'b) \<Rightarrow> 'a list \<Rightarrow> error + 'b list" where
  "map_throwing f [] = Inr []"
| "map_throwing f (x # xs) =
     (case f x of
        Inl e \<Rightarrow> Inl e
      | Inr y \<Rightarrow> (case map_throwing f xs of Inl e \<Rightarrow> Inl e | Inr ys \<Rightarrow> Inr (y # ys)))"

text \<open>
  \<open>validate\<close>, as a function of the state in which the button was clicked. \<open>fetchUoc\<close>
  gives the outcome of the lookup of a code and \<open>order\<close> the order in which the lookups
  settle.
  \<^verbatim>\<open>
  const validate = async () => {
    if (!detectedUoCs.length) {
      setActiveTab("results");
      setReports([ { unit: { code: "N/A", ... }, ... } ]);
      return;
    }
    setIsProcessing(true);
    setActiveTab("results");
    try {
      const results = await Promise.allSettled(detectedUoCs.map((c) => fetchUoc(c)));
      const perUnitReports = results.map((settled, idx) => { ... });
      setReports(perUnitReports);
      setActiveReportIdx(0);
    } finally {
      setIsProcessing(false);
    }
  };
  \<close>
\<close>

definition validate :: "(string \<Rightarrow> settled) \<Rightarrow> nat list \<Rightarrow> app_state \<Rightarrow> app_state" where
  "validate fetchUoc order s =
     (if detectedUoCs s = []
      then s\<lparr> activeTab := Results, reports := [no_uoc_report] \<rparr>
      else
        let s1 = s\<lparr> isProcessing := True, activeTab := Results \<rparr>
        in case allSettled order (map fetchUoc (detectedUoCs s)) of
             None \<Rightarrow> s1
           | Some results \<Rightarrow>
               (case map_throwing (\<lambda>(c, r). per_unit (assessmentText s) c r)
                       (zip (detectedUoCs s) results) of
                  Inl e \<Rightarrow> s1\<lparr> isProcessing := False \<rparr>
                | Inr perUnitReports \<Rightarrow>
                    s1\<lparr> reports := perUnitReports, activeReportIdx := 0,
                        isProcessing := False \<rparr>))"

subsection \<open>Upload handler and report selection\<close>

text \<open>
  \<open>handleUpload\<close> is asynchronous. Its first half runs when a file is chosen; its second
  half runs when the response of \<^verbatim>\<open>/api/extract\<close> arrives, and other handlers may run in
  between.
  \<^verbatim>\<open>
  const handleUpload = async (e) => {
    setUploadError(""); setDetectedUoCs([]); setAssessmentText("");
    setReports([]); setActiveReportIdx(0);
    const file = e.target.files?.[0];
    if (!file) return;
    setAssessmentFile(file);
    ...
    try {
      const resp = await fetch(`${API_BASE}/api/extract`, { method: "POST", body: form });
      if (!resp.ok) { let msg = ...; setUploadError(msg || "Upload failed"); return; }
      const data = await resp.json();
      setDetectedUoCs(data.detected || []);
      setAssessmentText(data.text || "");
      setUploadError("");
    } catch { setUploadError("Network error while uploading file."); }
  };
  \<close>
  \<open>HttpError msg\<close> is a response that is not ok, with the message read from it;
  \<open>Extracted detected text\<close> is the JSON of a response that is ok. \<open>selectReport\<close> is the
  click on the button of a report in the results tab,
  \<^verbatim>\<open>onClick={() => setActiveReportIdx(idx)}\<close>, which exists for the indices of \<open>reports\<close>.
\<close>

datatype upload_response =
    HttpError string
  | NetworkError
  | Extracted "string list option" "string option"

definition handleUpload_begin :: "string option \<Rightarrow> app_state \<Rightarrow> app_state" where
  "handleUpload_begin file s =
     (let s1 = s\<lparr> uploadError := [], detectedUoCs := [], assessmentText := [],
                   reports := [], activeReportIdx := 0 \<rparr>
      in case file of None \<Rightarrow> s1 | Some f \<Rightarrow> s1\<lparr> assessmentFile := Some f \<rparr>)"

definition handleUpload_end :: "upload_response \<Rightarrow> app_state \<Rightarrow> app_state" where
  "handleUpload_end resp s =
     (case resp of
        HttpError msg \<Rightarrow> s\<lparr> uploadError := (if msg \<noteq> [] then msg else ''Upload failed'') \<rparr>
      | NetworkError \<Rightarrow> s\<lparr> uploadError := ''Network error while uploading file.'' \<rparr>
      | Extracted detected tx \<Rightarrow>
          s\<lparr> detectedUoCs := or_nil detected, assessmentText := or_empty tx,
              uploadError := [] \<rparr>)"

definition selectReport :: "nat \<Rightarrow> app_state \<Rightarrow> app_state" where
  "selectReport idx s =
     (if activeTab s = Results \<and> idx < length (reports s) then s\<lparr> activeReportIdx := idx \<rparr>
      else s)"

text \<open>The two buttons of the navigation bar, \<^verbatim>\<open>onClick={() => setActiveTab("upload")}\<close> and
  \<^verbatim>\<open>onClick={() => setActiveTab("results")}\<close>, the second
  \<^verbatim>\<open>disabled={!reports.length}\<close>.\<close>

definition showTab :: "tab \<Rightarrow> app_state \<Rightarrow> app_state" where
  "showTab t s = (if t = Results \<and> reports s = [] then s else s\<lparr> activeTab := t \<rparr>)"

text \<open>The state of the first render.\<close>

definition initial_state :: app_state where
  "initial_state =
     \<lparr> activeTab = Upload, assessmentFile = None, assessmentText = [], detectedUoCs = [],
       reports = [], activeReportIdx = 0, isProcessing = False, uploadError = [] \<rparr>"

subsection \<open>Reference notions for the statements\<close>

text \<open>
  The notions of the tokenizer's description, written without the definitions above:
  the whitespace characters and the characters of \<^verbatim>\<open>[a-z0-9]\<close> by enumeration; the
  normal form of a character, which is its lower-case form (a capital \<open>A\<close> to \<open>Z\<close>
  becomes the small letter) where that is in \<^verbatim>\<open>[a-z0-9]\<close> or whitespace, and a space
  otherwise (a capital of Latin-1 and its small letter are both outside the class, so
  both give a space); and the stop words.
\<close>

definition whitespace :: "char \<Rightarrow> bool" where
  "whitespace c =
     (c \<in> set [CHR 0x09, CHR 0x0A, CHR 0x0B, CHR 0x0C, CHR 0x0D, CHR 0x20, CHR 0xA0])"

definition az09 :: string where
  "az09 = ''abcdefghijklmnopqrstuvwxyz0123456789''"

definition normalise :: "char \<Rightarrow> char" where
  "normalise c =
     (let l = (case map_of (zip ''ABCDEFGHIJKLMNOPQRSTUVWXYZ'' ''abcdefghijklmnopqrstuvwxyz'') c of
                 Some x \<Rightarrow> x
               | None \<Rightarrow> c)
      in if l \<in> set az09 \<or> whitespace l then l else CHR '' '')"

definition stop_words :: "string list" where
  "stop_words =
     [''the'', ''and'', ''a'', ''an'', ''for'', ''to'', ''of'', ''in'', ''on'', ''by'', ''with'',
      ''as'', ''that'', ''are'', ''is'', ''be'', ''or'', ''at'', ''from'', ''this'', ''it'',
      ''into'', ''over'', ''under'', ''up'', ''down'', ''across'', ''about'', ''between'',
      ''their'', ''your'', ''you'', ''we'', ''our'', ''they'']"

text \<open>The words of a string: its maximal runs of characters that are not whitespace,
  from left to right.\<close>

function words_ws :: "string \<Rightarrow> string list" where
  "words_ws s =
     (let r = dropWhile whitespace s
      in if r = [] then []
         else takeWhile (\<lambda>c. \<not> whitespace c) r # words_ws (dropWhile (\<lambda>c. \<not> whitespace c) r))"
  by pat_completeness auto
termination
proof (relation "measure length", simp, goal_cases)
  case (1 s r)
  then obtain x xs where r: "dropWhile whitespace s = x # xs"
    by (cases "dropWhile whitespace s") auto
  have "\<not> whitespace x"
    using hd_dropWhile [of whitespace s] r by auto
  then have "length (dropWhile (\<lambda>c. \<not> whitespace c) (x # xs)) \<le> length xs"
    by (simp add: length_dropWhile_le)
  moreover have "length (x # xs) \<le> length s"
    using length_dropWhile_le [of whitespace s] r by simp
  ultimately show ?case using 1 r by simp
qed

declare words_ws.simps [simp del]

text \<open>The needle of a requirement, the token set of the assessment text, and what it
  means for a requirement to be covered or missing: the share of needle tokens found in
  the haystack is at least \<open>0.35\<close>, resp. below it. A requirement with an empty needle is
  neither.\<close>

definition needle :: "requirement \<Rightarrow> string list" where
  "needle t = tokenize (req_text t)"

definition is_covered :: "string set \<Rightarrow> requirement \<Rightarrow> bool" where
  "is_covered hay t =
     (needle t \<noteq> [] \<and>
      (of_nat (present_count hay (needle t)) :: rat) / of_nat (length (needle t)) \<ge> 35 / 100)"

definition is_missing :: "string set \<Rightarrow> requirement \<Rightarrow> bool" where
  "is_missing hay t =
     (needle t \<noteq> [] \<and>
      (of_nat (present_count hay (needle t)) :: rat) / of_nat (length (needle t)) < 35 / 100)"

definition label_of :: "requirement \<Rightarrow> string" where
  "label_of t =
     (case req_code t of
        Some c \<Rightarrow> if c \<noteq> [] then c else take 60 (or_empty (req_text t))
      | None \<Rightarrow> take 60 (or_empty (req_text t)))"

definition haystack :: "string option \<Rightarrow> string set" where
  "haystack fullText = set (tokenize fullText)"

text \<open>The status of a score under two thresholds, and the sufficiency score in the
  words of the specification: the rounded minimum of \<open>100\<close> and the weighted sum.\<close>

definition grade :: "int \<Rightarrow> int \<Rightarrow> int \<Rightarrow> status" where
  "grade pass_from warning_from x =
     (if x \<ge> pass_from then Pass else if x \<ge> warning_from then Warning else Fail)"

definition sufficiency_of :: "int \<Rightarrow> int \<Rightarrow> int" where
  "sufficiency_of pc ke = Math_round (min 100 (of_int pc * (6 / 10) + of_int ke * (4 / 10)))"

text \<open>The result of \<open>coverageCheck\<close> without its loop.\<close>

definition closed_coverage :: "string option \<Rightarrow> requirement list \<Rightarrow> coverage_result" where
  "closed_coverage fullText targets =
     \<lparr> total_n = int (length targets),
       assessed = int (length (filter (is_covered (haystack fullText)) targets)),
       percentage =
         (if targets = [] then 0
          else Math_round (of_int (int (length (filter (is_covered (haystack fullText)) targets)) * 100)
                 / of_nat (length targets))),
       missing = map label_of (filter (is_missing (haystack fullText)) targets) \<rparr>"

subsection \<open>Example inputs\<close>

text \<open>A requirement without code whose needle has 20 tokens.\<close>

definition needle20 :: requirement where
  "needle20 =
     \<lparr> req_code = None,
       req_text = Some ''b c d e f g h 1 2 3 4 5 6 7 8 9 i j k l'' \<rparr>"

text \<open>The mock payload of unit MARN008 in \<^verbatim>\<open>server/index.js\<close>, a lookup that knows this
  unit only, and states reached through the handlers: an upload with two codes, an
  upload without codes, and two overlapping uploads, the first answered before a
  validation and the second, without codes, after it, followed by the selection of the
  second report and the return to the upload tab.\<close>

definition MARN008 :: tga_payload where
  "MARN008 =
     \<lparr> found = None,
       pl_unit = Some \<lparr> unit_code = Some ''MARN008'',
                        unit_title = Some ''Apply seamanship skills aboard a vessel up to 12 metres (Mock)'' \<rparr>,
       pl_code = None, pl_title = None,
       pl_url = Some ''https://training.gov.au/Training/Details/MARN008'',
       elementsAndPC = Some
         [\<lparr> pcCode = Some ''1.1'', description = Some ''Maintain safe deck practices and housekeeping.'' \<rparr>,
          \<lparr> pcCode = Some ''1.2'', description = Some ''Perform mooring and anchoring operations.'' \<rparr>,
          \<lparr> pcCode = Some ''2.1'', description = Some ''Handle lines, ropes and knots for small vessel operations.'' \<rparr>],
       knowledgeEvidence = Some
         [Some ''Basic seamanship terminology and safety practices.'',
          Some ''Characteristics and safe use of common knots and splices.'',
          Some ''Hazards associated with lines under load and snap-back zones.''] \<rparr>"

definition fetch_mock :: "string \<Rightarrow> settled" where
  "fetch_mock c = (if c = ''MARN008'' then Fulfilled (Some MARN008) else Rejected)"

definition two_codes :: app_state where
  "two_codes =
     handleUpload_end
       (Extracted (Some [''MARN008'', ''UNKNOWNXYZ''])
          (Some ''Maintain safe deck practices. Perform mooring operations.''))
       (handleUpload_begin (Some ''assessment.txt'') initial_state)"

definition overlapping_uploads :: app_state where
  "overlapping_uploads =
     showTab Upload
       (selectReport 1
          (handleUpload_end (Extracted (Some []) (Some ''Nothing to see.''))
             (validate fetch_mock [0, 1]
                (handleUpload_end
                   (Extracted (Some [''MARN008'', ''UNKNOWNXYZ''])
                      (Some ''Maintain safe deck practices. Perform mooring operations.''))
                   (handleUpload_begin (Some ''second.txt'')
                      (handleUpload_begin (Some ''first.txt'') initial_state))))))"

definition no_codes :: app_state where
  "no_codes =
     handleUpload_end (Extracted (Some []) (Some ''Nothing to see.''))
       (handleUpload_begin (Some ''plain.txt'') initial_state)"

section \<open>Properties\<close>

subsection \<open>Tokenizer\<close>

lemma char_eq_code: "c = d \<longleftrightarrow> (of_char c :: nat) = of_char d"
  by simp

lemma is_space_whitespace: "is_space c = whitespace c"
  unfolding is_space_def whitespace_def
  by (simp only: list.set insert_iff empty_iff char_eq_code) simp

lemma is_az09_az09: "is_az09 c \<longleftrightarrow> c \<in> set az09"
  unfolding az09_def is_az09_def Let_def
  by (simp only: list.set insert_iff empty_iff char_eq_code) (simp del: of_char_eq_iff, arith)

lemma capital_code:
  "c \<in> set ''ABCDEFGHIJKLMNOPQRSTUVWXYZ'' \<longleftrightarrow> 65 \<le> (of_char c :: nat) \<and> (of_char c :: nat) \<le> 90"
  by (simp only: list.set insert_iff empty_iff char_eq_code) (simp del: of_char_eq_iff, arith)

lemma lower_capitals:
  "''abcdefghijklmnopqrstuvwxyz'' = map lower_char ''ABCDEFGHIJKLMNOPQRSTUVWXYZ''"
  by code_simp

lemma ascii_lower:
  "(case map_of (zip ''ABCDEFGHIJKLMNOPQRSTUVWXYZ'' ''abcdefghijklmnopqrstuvwxyz'') c of
      Some x \<Rightarrow> x | None \<Rightarrow> c)
   = (if c \<in> set ''ABCDEFGHIJKLMNOPQRSTUVWXYZ'' then lower_char c else c)"
  by (subst lower_capitals) (simp only: map_of_zip_map split: if_splits, simp)

lemma normalise_code:
  "(if is_az09 (lower_char c) \<or> is_space (lower_char c) then lower_char c else CHR '' '')
   = normalise c"
proof (cases "c \<in> set ''ABCDEFGHIJKLMNOPQRSTUVWXYZ''")
  case True
  then show ?thesis
    unfolding normalise_def ascii_lower Let_def
    by (simp only: if_True is_space_whitespace is_az09_az09)
next
  case False
  let ?n = "of_char c :: nat"
  have cap: "\<not> (65 \<le> ?n \<and> ?n \<le> 90)"
    using False capital_code [of c] by blast
  show ?thesis
  proof (cases "192 \<le> ?n \<and> ?n \<le> 222 \<and> ?n \<noteq> 215")
    case True
    then have lc: "lower_char c = char_of (?n + 32)"
      by (simp add: lower_char_def Let_def)
    have code: "(of_char (char_of (?n + 32)) :: nat) = ?n + 32"
      using True by simp
    have "\<not> is_az09 (lower_char c)" "\<not> is_space (lower_char c)"
      using True unfolding lc is_az09_def is_space_def Let_def code by auto
    moreover have "\<not> is_az09 c" "\<not> is_space c"
      using True unfolding is_az09_def is_space_def Let_def by auto
    ultimately show ?thesis
      using False unfolding normalise_def ascii_lower Let_def
      by (simp add: is_space_whitespace is_az09_az09)
  next
    case False
    with cap have "lower_char c = c"
      by (auto simp: lower_char_def Let_def)
    then show ?thesis
      using \<open>c \<notin> set ''ABCDEFGHIJKLMNOPQRSTUVWXYZ''\<close>
      unfolding normalise_def ascii_lower Let_def
      by (simp add: is_space_whitespace is_az09_az09)
  qed
qed

lemma is_space_eq: "is_space = whitespace"
  by (rule ext) (rule is_space_whitespace)

lemma stop_words_STOP: "set STOP = set stop_words"
  by (simp add: STOP_def stop_words_def)

lemma words_ws_unfold:
  "words_ws s =
     (let r = dropWhile is_space s
      in if r = [] then []
         else takeWhile (\<lambda>c. \<not> is_space c) r # words_ws (dropWhile (\<lambda>c. \<not> is_space c) r))"
  unfolding is_space_eq by (rule words_ws.simps)

lemma words_ws_induct:
  assumes "\<And>s. (\<And>r. r = dropWhile is_space s \<Longrightarrow> r \<noteq> [] \<Longrightarrow>
                   P (dropWhile (\<lambda>c. \<not> is_space c) r)) \<Longrightarrow> P s"
  shows "P a"
  using assms unfolding is_space_eq by (rule words_ws.induct)

lemma words_ws_Nil: "words_ws [] = []"
  by (simp add: words_ws_unfold)

lemma words_ws_space: "is_space c \<Longrightarrow> words_ws (c # cs) = words_ws cs"
  by (subst words_ws_unfold, subst (2) words_ws_unfold) simp

lemma words_ws_dropWhile: "words_ws (dropWhile is_space s) = words_ws s"
  by (induction s) (simp_all add: words_ws_space)

lemma words_ws_run:
  assumes "\<forall>c \<in> set cur. \<not> is_space c" "cur \<noteq> []"
  shows "words_ws cur = [cur]"
    and "is_space c \<Longrightarrow> words_ws (cur @ c # cs) = cur # words_ws cs"
proof -
  obtain x xs where cur: "cur = x # xs" using assms(2) by (cases cur) auto
  have nx: "\<not> is_space x" using assms(1) cur by simp
  have tw: "takeWhile (\<lambda>c. \<not> is_space c) cur = cur" using assms(1) by simp
  have dw: "dropWhile (\<lambda>c. \<not> is_space c) cur = []" using assms(1) by simp
  have d1: "dropWhile is_space cur = cur" using nx by (simp add: cur)
  show "words_ws cur = [cur]"
    using assms(2) by (subst words_ws_unfold) (simp add: d1 tw dw words_ws_Nil)
  assume sp: "is_space c"
  have tw2: "takeWhile (\<lambda>c. \<not> is_space c) (cur @ c # cs) = cur"
    using assms(1) sp by (simp add: takeWhile_append2)
  have dw2: "dropWhile (\<lambda>c. \<not> is_space c) (cur @ c # cs) = c # cs"
    using assms(1) sp by (simp add: dropWhile_append2)
  have d0: "dropWhile is_space (cur @ c # cs) = cur @ c # cs"
    using nx by (simp add: cur)
  show "words_ws (cur @ c # cs) = cur # words_ws cs"
    using assms(2) by (subst words_ws_unfold) (simp add: d0 tw2 dw2 words_ws_space sp)
qed

lemma split_from_words:
  "\<forall>c \<in> set cur. \<not> is_space c \<Longrightarrow>
   filter (\<lambda>w. w \<noteq> []) (split_from cur s) = words_ws (cur @ s)"
proof (induction cur s rule: split_from.induct)
  case (1 cur)
  then show ?case
    by (cases "cur = []") (simp_all add: words_ws_Nil words_ws_run(1))
next
  case (2 cur c cs)
  show ?case
  proof (cases "is_space c")
    case True
    have ih: "filter (\<lambda>w. w \<noteq> []) (split_from [] (dropWhile is_space cs)) = words_ws cs"
      using "2.IH"(1) [OF True] by (simp add: words_ws_dropWhile)
    show ?thesis
    proof (cases "cur = []")
      case True
      with \<open>is_space c\<close> ih show ?thesis by (simp add: words_ws_space)
    next
      case False
      with \<open>is_space c\<close> ih "2.prems" show ?thesis
        by (simp add: words_ws_run(2))
    qed
  next
    case False
    with "2.IH"(2) "2.prems" show ?thesis by simp
  qed
qed

lemma split_ws_words: "filter (\<lambda>w. w \<noteq> []) (split_ws s) = words_ws s"
  using split_from_words [of "[]" s] by (simp add: split_ws_def)


lemma tokenize_None: "tokenize None = []"
  by (simp add: tokenize_def or_empty_def toLowerCase_def replace_other_def split_ws_def)

lemma tokenize_empty: "tokenize (Some []) = []"
  by (simp add: tokenize_def or_empty_def toLowerCase_def replace_other_def split_ws_def)

lemma tokenize_or_empty: "tokenize (Some (or_empty t)) = tokenize t"
  by (simp add: tokenize_def or_empty_def split: option.splits)

lemma filter_nonempty_stop:
  "filter (\<lambda>w. w \<noteq> [] \<and> w \<notin> set STOP) ws =
   filter (\<lambda>w. w \<notin> set STOP) (filter (\<lambda>w. w \<noteq> []) ws)"
  by (induction ws) auto

lemma tokenize_words:
  "tokenize t =
   filter (\<lambda>w. w \<notin> set STOP) (words_ws (replace_other (toLowerCase (or_empty t))))"
  by (simp add: tokenize_def filter_nonempty_stop split_ws_words)

lemma is_space_lower: "is_space c \<Longrightarrow> lower_char c = c"
  by (auto simp: is_space_def lower_char_def Let_def)

lemma is_space_blank: "is_space (CHR '' '')"
  by (simp add: is_space_def)

lemma split_from_chars:
  "w \<in> set (split_from cur s) \<Longrightarrow> c \<in> set w \<Longrightarrow>
   \<forall>c \<in> set cur. \<not> is_space c \<Longrightarrow> c \<in> set cur \<union> set s \<and> \<not> is_space c"
proof (induction cur s rule: split_from.induct)
  case (1 cur)
  then show ?case by auto
next
  case (2 cur c' cs)
  show ?case
  proof (cases "is_space c'")
    case True
    show ?thesis
    proof (cases "w = cur")
      case True
      with "2.prems" show ?thesis by auto
    next
      case False
      with "2.prems" \<open>is_space c'\<close>
      have "w \<in> set (split_from [] (dropWhile is_space cs))" by simp
      from "2.IH"(1) [OF True this "2.prems"(2)]
      have "c \<in> set (dropWhile is_space cs) \<and> \<not> is_space c" by simp
      then show ?thesis using set_dropWhileD by fastforce
    qed
  next
    case False
    with "2.prems" have "w \<in> set (split_from (cur @ [c']) cs)" by simp
    from "2.IH"(2) [OF False this "2.prems"(2)] False "2.prems"(3)
    show ?thesis by auto
  qed
qed

lemma tokenize_token:
  assumes "w \<in> set (tokenize t)"
  shows "w \<noteq> []" and "w \<notin> set STOP" and "\<forall>c \<in> set w. is_az09 c"
proof -
  let ?s = "replace_other (toLowerCase (or_empty t))"
  from assms show "w \<noteq> []" and "w \<notin> set STOP"
    by (auto simp: tokenize_def)
  from assms have w: "w \<in> set (split_from [] ?s)"
    by (auto simp: tokenize_def split_ws_def)
  show "\<forall>c \<in> set w. is_az09 c"
  proof
    fix c assume "c \<in> set w"
    with w split_from_chars [of w "[]" ?s c]
    have "c \<in> set ?s" and "\<not> is_space c" by auto
    then show "is_az09 c"
      by (auto simp: replace_other_def is_space_blank split: if_splits)
  qed
qed

lemma replace_lower_space:
  "is_space c \<Longrightarrow> replace_other (toLowerCase (a @ c # b)) =
     replace_other (toLowerCase a) @ c # replace_other (toLowerCase b)"
  by (simp add: replace_other_def toLowerCase_def is_space_lower)

lemma words_ws_append:
  "is_space c \<Longrightarrow> words_ws (a @ c # b) = words_ws a @ words_ws b"
proof (induction a rule: words_ws_induct)
  case (1 s)
  let ?r = "dropWhile is_space s"
  let ?ns = "\<lambda>c. \<not> is_space c"
  show ?case
  proof (cases "?r = []")
    case True
    then have all: "\<forall>x \<in> set s. is_space x"
      by (simp add: dropWhile_eq_Nil_conv)
    then have "dropWhile is_space (s @ c # b) = dropWhile is_space b"
      using 1(2) by (simp add: dropWhile_append2)
    then have "words_ws (s @ c # b) = words_ws b"
      by (metis words_ws_dropWhile)
    moreover have "words_ws s = []"
      using True by (subst words_ws_unfold) (simp add: Let_def)
    ultimately show ?thesis by simp
  next
    case False
    then obtain x where x: "x \<in> set s" "\<not> is_space x"
      by (auto simp: dropWhile_eq_Nil_conv)
    have d: "dropWhile is_space (s @ c # b) = ?r @ c # b"
      using x by (simp add: dropWhile_append1)
    define h where "h = takeWhile ?ns ?r"
    define t where "t = dropWhile ?ns ?r"
    have split: "?r = h @ t" by (simp add: h_def t_def)
    have h_ns: "\<forall>y \<in> set h. \<not> is_space y"
      by (auto simp: h_def dest: set_takeWhileD)
    have "hd ?r \<in> set h"
      using False hd_dropWhile [of is_space s]
      by (cases ?r) (auto simp: h_def)
    then have h_ne: "h \<noteq> []" by auto
    have ih: "words_ws (t @ c # b) = words_ws t @ words_ws b"
      using 1(1) [OF refl False 1(2)] by (simp add: t_def)
    have ws: "words_ws s = h # words_ws t"
      using False by (subst words_ws_unfold) (simp add: Let_def h_def t_def)
    obtain y ys where y: "t @ c # b = y # ys" "is_space y"
    proof (cases t)
      case Nil
      with 1(2) that show ?thesis by simp
    next
      case (Cons z zs)
      have "dropWhile ?ns ?r \<noteq> []" using Cons by (simp add: t_def)
      from hd_dropWhile [OF this] have "is_space z"
        using Cons by (simp add: t_def)
      with Cons that show ?thesis by simp
    qed
    have "words_ws (s @ c # b) = words_ws (?r @ c # b)"
      using d by (metis words_ws_dropWhile)
    also have "\<dots> = words_ws (h @ y # ys)"
      using split y(1) by simp
    also have "\<dots> = h # words_ws ys"
      using words_ws_run(2) [OF h_ns h_ne y(2)] .
    also have "\<dots> = h # words_ws (t @ c # b)"
      using y by (simp add: words_ws_space)
    finally show ?thesis using ih ws by simp
  qed
qed

lemma tokenize_append:
  "is_space c \<Longrightarrow> tokenize (Some (a @ c # b)) = tokenize (Some a) @ tokenize (Some b)"
  by (simp add: tokenize_words or_empty_def replace_lower_space words_ws_append)

text \<open>
  Claim C9. \<open>tokenize\<close> of an absent or empty text is empty. Otherwise the tokens are the
  words of the text after lower-casing and after every character outside
  \<^verbatim>\<open>[a-z0-9\s]\<close> has become a space, without the stop words, in their order. \<open>tokenize\<close>
  is a total function: no input makes it raise. Every token is non-empty, is no stop
  word and consists of characters of \<^verbatim>\<open>[a-z0-9]\<close>.
\<close>

theorem tokenize_characterisation:
  "tokenize None = [] \<and> tokenize (Some []) = [] \<and>
   tokenize (Some s) = filter (\<lambda>w. w \<notin> set stop_words) (words_ws (map normalise s)) \<and>
   (\<forall>w \<in> set (tokenize t).
      w \<noteq> [] \<and> w \<notin> set stop_words \<and> (\<forall>c \<in> set w. c \<in> set az09))"
proof -
  have "replace_other (toLowerCase s) = map normalise s"
    by (simp add: replace_other_def toLowerCase_def normalise_code)
  then have "tokenize (Some s)
      = filter (\<lambda>w. w \<notin> set stop_words) (words_ws (map normalise s))"
    using tokenize_words [of "Some s"] by (simp add: or_empty_def stop_words_STOP)
  moreover have "\<forall>w \<in> set (tokenize t).
      w \<noteq> [] \<and> w \<notin> set stop_words \<and> (\<forall>c \<in> set w. c \<in> set az09)"
    using tokenize_token [of _ t] by (simp add: stop_words_STOP is_az09_az09)
  ultimately show ?thesis
    by (simp add: tokenize_None tokenize_empty)
qed

theorem tokenize_characterisation_witness:
  "tokenize (Some ''The X-ray, of IT'') = [''x'', ''ray''] \<and>
   filter (\<lambda>w. w \<notin> set stop_words) (words_ws (map normalise ''The X-ray, of IT''))
     = [''x'', ''ray''] \<and>
   ''x'' \<in> set (tokenize (Some ''The X-ray, of IT'')) \<and>
   ''x'' \<noteq> [] \<and> ''x'' \<notin> set stop_words \<and> list_all (\<lambda>c. c \<in> set az09) ''x''"
proof -
  note th = tokenize_characterisation [of "''The X-ray, of IT''" "Some ''The X-ray, of IT''"]
  have t: "tokenize (Some ''The X-ray, of IT'') = [''x'', ''ray'']"
    by code_simp
  from th t have e: "filter (\<lambda>w. w \<notin> set stop_words)
      (words_ws (map normalise ''The X-ray, of IT'')) = [''x'', ''ray'']"
    by simp
  have m: "''x'' \<in> set (tokenize (Some ''The X-ray, of IT''))"
    by (simp add: t)
  with th have "''x'' \<noteq> [] \<and> ''x'' \<notin> set stop_words \<and> (\<forall>c \<in> set ''x''. c \<in> set az09)"
    by blast
  with t e m show ?thesis
    unfolding list_all_iff by blast
qed

subsection \<open>Coverage evaluator\<close>

lemma label_needle: "needle t \<noteq> [] \<Longrightarrow> label t = Inr (label_of t)"
  by (cases "req_text t"; cases "req_code t")
     (auto simp: needle_def label_def label_of_def truthy_def or_empty_def tokenize_None)

lemma coverage_loop_closed:
  "coverage_loop hay ts miss covered =
     Inr (miss @ map label_of (filter (is_missing hay) ts),
          covered + int (length (filter (is_covered hay) ts)))"
proof (induction ts arbitrary: miss covered)
  case Nil
  show ?case by simp
next
  case (Cons t ts)
  show ?case
  proof (cases "needle t = []")
    case True
    then show ?thesis
      using Cons.IH by (simp add: is_missing_def is_covered_def needle_def [symmetric])
  next
    case False
    note ne = this
    show ?thesis
    proof (cases "is_covered hay t")
      case True
      then have "\<not> is_missing hay t" by (auto simp: is_missing_def is_covered_def)
      with True ne show ?thesis
        using Cons.IH [of miss "covered + 1"]
        by (simp add: is_covered_def needle_def [symmetric] Let_def)
    next
      case False
      with ne have m: "is_missing hay t" by (auto simp: is_missing_def is_covered_def)
      with False ne show ?thesis
        using Cons.IH [of "miss @ [label_of t]" covered] label_needle [OF ne]
        by (simp add: is_covered_def needle_def [symmetric] Let_def)
    qed
  qed
qed

lemma coverageCheck_closed:
  "coverageCheck fullText targets = Inr (closed_coverage fullText targets)"
  by (simp add: coverageCheck_def coverage_loop_closed tokenize_or_empty haystack_def Let_def
      closed_coverage_def)

lemma Math_round_mono: "x \<le> y \<Longrightarrow> Math_round x \<le> Math_round y"
  by (simp add: Math_round_def floor_mono)

lemma Math_round_of_int: "Math_round (of_int n) = n"
  by (simp add: Math_round_def) linarith

lemma covered_or_missing:
  "is_covered hay t \<or> is_missing hay t \<longleftrightarrow> needle t \<noteq> []"
  "\<not> (is_covered hay t \<and> is_missing hay t)"
  by (auto simp: is_covered_def is_missing_def)

lemma length_partition3:
  "length (filter (is_covered hay) ts) + length (filter (is_missing hay) ts)
   + length (filter (\<lambda>t. needle t = []) ts) = length ts"
proof (induction ts)
  case Nil
  show ?case by simp
next
  case (Cons t ts)
  then show ?case
    using covered_or_missing [of hay t] by (cases "needle t = []") auto
qed

lemma filter_nonempty_needle:
  "filter (is_covered hay) (filter (\<lambda>t. needle t \<noteq> []) ts) = filter (is_covered hay) ts"
  "filter (is_missing hay) (filter (\<lambda>t. needle t \<noteq> []) ts) = filter (is_missing hay) ts"
  by (induction ts) (auto simp: is_covered_def is_missing_def)

text \<open>
  Claim C1, amended. \<open>coverageCheck\<close> returns a result for every assessment text and every
  requirement list, with \<open>0 \<le> assessed \<le> total\<close>, with
  \<open>percentage = round (assessed * 100 / total)\<close> when \<open>total > 0\<close> and \<open>0\<close> otherwise, and
  with the labels of \<open>missing\<close> in the order of their requirements in the list. The length
  of \<open>missing\<close> is \<open>total - assessed\<close> minus the number of requirements whose tokenized
  text is empty: \<open>total\<close> is the length of the list, and such a requirement is in the list
  but is neither assessed nor missing.
\<close>

theorem coverageCheck_invariant:
  "\<exists>r. coverageCheck fullText targets = Inr r \<and>
       0 \<le> assessed r \<and> assessed r \<le> total_n r \<and>
       percentage r =
         (if total_n r > 0 then Math_round (of_int (assessed r * 100) / of_int (total_n r))
          else 0) \<and>
       int (length (missing r)) =
         total_n r - assessed r
           - int (length (filter (\<lambda>t. tokenize (req_text t) = []) targets)) \<and>
       missing r = map label_of (filter (is_missing (haystack fullText)) targets) \<and>
       subseq (missing r) (map label_of targets)"
proof -
  let ?r = "closed_coverage fullText targets"
  have len: "int (length (missing ?r)) =
        total_n ?r - assessed ?r
          - int (length (filter (\<lambda>t. tokenize (req_text t) = []) targets))"
    using length_partition3 [of "haystack fullText" targets]
    by (simp add: closed_coverage_def needle_def)
  have "assessed ?r \<le> total_n ?r"
    by (simp add: closed_coverage_def)
  moreover have "0 \<le> assessed ?r"
    by (simp add: closed_coverage_def)
  moreover have "percentage ?r =
      (if total_n ?r > 0 then Math_round (of_int (assessed ?r * 100) / of_int (total_n ?r))
       else 0)"
    by (simp add: closed_coverage_def)
  moreover have "missing ?r = map label_of (filter (is_missing (haystack fullText)) targets)"
    by (simp add: closed_coverage_def)
  moreover have "subseq (missing ?r) (map label_of targets)"
    by (simp add: closed_coverage_def subseq_map)
  ultimately show ?thesis
    using len coverageCheck_closed [of fullText targets] by blast
qed

text \<open>
  The claim as written (\<open>length missing = total - assessed\<close>) fails where a requirement
  has only stop words: one requirement, none assessed, none missing.
\<close>

theorem coverageCheck_length_counterexample:
  "coverageCheck (Some ''Maintain safe deck practices.'')
     [\<lparr> req_code = Some ''PC 1.1'', req_text = Some ''That is it.'' \<rparr>]
   = Inr \<lparr> total_n = 1, assessed = 0, percentage = 0, missing = [] \<rparr>
   \<and> int (length (missing \<lparr> total_n = 1, assessed = 0, percentage = 0, missing = [] \<rparr>))
     \<noteq> total_n \<lparr> total_n = 1, assessed = 0, percentage = 0, missing = [] \<rparr>
       - assessed \<lparr> total_n = 1, assessed = 0, percentage = 0, missing = [] \<rparr>"
  by code_simp


subsubsection \<open>Requirements with an empty needle\<close>

text \<open>
  The claim C2 as written (\<open>total\<close> counts the requirements with a non-empty needle)
  fails: of three requirements, one without text and one of stop words only, \<open>total\<close> is
  \<open>3\<close>.
\<close>

theorem coverageCheck_total_counterexample:
  "coverageCheck (Some ''Perform mooring operations.'')
     [\<lparr> req_code = Some ''K1'', req_text = Some ''Mooring operations.'' \<rparr>,
      \<lparr> req_code = Some ''K2'', req_text = None \<rparr>,
      \<lparr> req_code = Some ''K3'', req_text = Some ''It is on or under, by the by!'' \<rparr>]
   = Inr \<lparr> total_n = 3, assessed = 1, percentage = 33, missing = [] \<rparr>
   \<and> total_n \<lparr> total_n = 3, assessed = 1, percentage = 33, missing = [] \<rparr>
     \<noteq> int (length (filter (\<lambda>t. tokenize (req_text t) \<noteq> [])
         [\<lparr> req_code = Some ''K1'', req_text = Some ''Mooring operations.'' \<rparr>,
          \<lparr> req_code = Some ''K2'', req_text = None \<rparr>,
          \<lparr> req_code = Some ''K3'', req_text = Some ''It is on or under, by the by!'' \<rparr>]))"
  by code_simp

text \<open>
  Claim C2, amended. A requirement whose tokenized text is empty (empty, absent or
  all-stop-word text) counts toward neither \<open>assessed\<close> nor \<open>missing\<close>: taking these
  requirements out of the list changes neither, and \<open>assessed\<close> plus the length of
  \<open>missing\<close> is the number of requirements with a non-empty needle. It still counts
  toward \<open>total\<close>, which is the length of the requirement list.
\<close>

theorem coverageCheck_skips:
  "\<exists>r r'. coverageCheck fullText targets = Inr r \<and>
      coverageCheck fullText (filter (\<lambda>t. tokenize (req_text t) \<noteq> []) targets) = Inr r' \<and>
      assessed r = assessed r' \<and> missing r = missing r' \<and>
      assessed r + int (length (missing r))
        = int (length (filter (\<lambda>t. tokenize (req_text t) \<noteq> []) targets)) \<and>
      total_n r = int (length targets)"
proof -
  let ?ne = "filter (\<lambda>t. tokenize (req_text t) \<noteq> []) targets"
  let ?r = "closed_coverage fullText targets" and ?r' = "closed_coverage fullText ?ne"
  have ne: "?ne = filter (\<lambda>t. needle t \<noteq> []) targets"
    by (simp add: needle_def)
  have a: "assessed ?r = assessed ?r'" and m: "missing ?r = missing ?r'"
    by (simp_all add: closed_coverage_def ne filter_nonempty_needle del: filter_filter)
  have "length (filter (\<lambda>t. needle t \<noteq> []) targets)
        + length (filter (\<lambda>t. needle t = []) targets) = length targets"
    using sum_length_filter_compl [of "\<lambda>t. needle t \<noteq> []" targets] by simp
  with length_partition3 [of "haystack fullText" targets]
  have s: "assessed ?r + int (length (missing ?r)) = int (length ?ne)"
    by (simp add: closed_coverage_def ne)
  have t: "total_n ?r = int (length targets)"
    by (simp add: closed_coverage_def)
  show ?thesis
    using a m s t coverageCheck_closed [of fullText targets] coverageCheck_closed [of fullText ?ne]
    by blast
qed

subsubsection \<open>The threshold\<close>

lemma present_count_sum:
  "present_count hay key = sum_list (map (\<lambda>k. if k \<in> hay then 1 else 0) key)"
  by (induction key) (simp_all add: present_count_def)

text \<open>
  Claim C3. \<open>coverageCheck\<close> counts as assessed the requirements that are covered, and
  \<open>missing\<close> holds the labels of the others that have a non-empty needle, where a
  requirement is covered when the number of its needle tokens found in the haystack,
  each occurrence counted, divided by the length of the needle is at least \<open>0.35\<close>, and
  its label is its code if that is present and non-empty, else the first 60 characters
  of its text. A needle of 20 tokens with 7 present is covered, with 6 present missing.
\<close>

theorem coverageCheck_threshold:
  "(\<exists>r. coverageCheck fullText targets = Inr r \<and>
        assessed r = int (length (filter (is_covered (haystack fullText)) targets)) \<and>
        missing r = map label_of (filter (is_missing (haystack fullText)) targets)) \<and>
   present_count hay key = sum_list (map (\<lambda>k. if k \<in> hay then 1 else 0) key) \<and>
   (length (needle t) = 20 \<and> present_count hay (needle t) = 7 \<longrightarrow> is_covered hay t) \<and>
   (length (needle t) = 20 \<and> present_count hay (needle t) = 6 \<longrightarrow> is_missing hay t)"
proof -
  have "\<exists>r. coverageCheck fullText targets = Inr r \<and>
        assessed r = int (length (filter (is_covered (haystack fullText)) targets)) \<and>
        missing r = map label_of (filter (is_missing (haystack fullText)) targets)"
    using coverageCheck_closed [of fullText targets] by (simp add: closed_coverage_def)
  moreover have "length (needle t) = 20 \<and> present_count hay (needle t) = 7
      \<longrightarrow> is_covered hay t"
    by (auto simp: is_covered_def)
  moreover have "length (needle t) = 20 \<and> present_count hay (needle t) = 6
      \<longrightarrow> is_missing hay t"
    by (auto simp: is_missing_def)
  ultimately show ?thesis using present_count_sum by blast
qed

theorem coverageCheck_threshold_witness:
  "length (needle needle20) = 20 \<and>
   present_count (haystack (Some ''b c d e f g h'')) (needle needle20) = 7 \<and>
   is_covered (haystack (Some ''b c d e f g h'')) needle20 \<and>
   present_count (haystack (Some ''b c d e f g'')) (needle needle20) = 6 \<and>
   is_missing (haystack (Some ''b c d e f g'')) needle20 \<and>
   coverageCheck (Some ''b c d e f g h'') [needle20]
     = Inr \<lparr> total_n = 1, assessed = 1, percentage = 100, missing = [] \<rparr> \<and>
   coverageCheck (Some ''b c d e f g'') [needle20]
     = Inr \<lparr> total_n = 1, assessed = 0, percentage = 0,
             missing = [''b c d e f g h 1 2 3 4 5 6 7 8 9 i j k l''] \<rparr>"
proof -
  have c7: "coverageCheck (Some ''b c d e f g h'') [needle20]
     = Inr \<lparr> total_n = 1, assessed = 1, percentage = 100, missing = [] \<rparr>"
    by code_simp
  have c6: "coverageCheck (Some ''b c d e f g'') [needle20]
     = Inr \<lparr> total_n = 1, assessed = 0, percentage = 0,
             missing = [''b c d e f g h 1 2 3 4 5 6 7 8 9 i j k l''] \<rparr>"
    by code_simp
  have l: "length (needle needle20) = 20"
    by code_simp
  have p7: "present_count (haystack (Some ''b c d e f g h'')) (needle needle20) = 7"
    by code_simp
  have p6: "present_count (haystack (Some ''b c d e f g'')) (needle needle20) = 6"
    by code_simp
  from l p7 p6 c7 c6
    coverageCheck_threshold [of None "[]" "haystack (Some ''b c d e f g h'')" "[]" needle20]
    coverageCheck_threshold [of None "[]" "haystack (Some ''b c d e f g'')" "[]" needle20]
  show ?thesis by blast
qed


subsubsection \<open>Monotonicity in the assessment text\<close>

lemma present_count_mono: "A \<subseteq> B \<Longrightarrow> present_count A key \<le> present_count B key"
  by (induction key) (auto simp: present_count_def)

lemma is_covered_mono:
  assumes "A \<subseteq> B" "is_covered A t"
  shows "is_covered B t"
proof -
  have "(of_nat (present_count A (needle t)) :: rat) / of_nat (length (needle t))
        \<le> of_nat (present_count B (needle t)) / of_nat (length (needle t))"
    using present_count_mono [OF assms(1), of "needle t"]
    by (simp add: divide_right_mono)
  with assms(2) show ?thesis
    unfolding is_covered_def using order_trans by blast
qed

lemma is_missing_antimono:
  assumes "A \<subseteq> B" "is_missing B t"
  shows "is_missing A t"
  using assms is_covered_mono [of A B t] covered_or_missing [of A t] covered_or_missing [of B t]
  by blast

lemma length_filter_mono:
  "(\<And>x. P x \<Longrightarrow> Q x) \<Longrightarrow> length (filter P xs) \<le> length (filter Q xs)"
  by (induction xs) auto

lemma subseq_filter_mono:
  "(\<And>x. P x \<Longrightarrow> Q x) \<Longrightarrow> subseq (filter P xs) (filter Q xs)"
  by (induction xs) auto

lemma closed_coverage_mono:
  assumes "haystack A \<subseteq> haystack B"
  shows "assessed (closed_coverage A ts) \<le> assessed (closed_coverage B ts)"
    and "percentage (closed_coverage A ts) \<le> percentage (closed_coverage B ts)"
    and "subseq (missing (closed_coverage B ts)) (missing (closed_coverage A ts))"
proof -
  let ?a = "length (filter (is_covered (haystack A)) ts)"
  let ?b = "length (filter (is_covered (haystack B)) ts)"
  have ab: "?a \<le> ?b"
    using is_covered_mono [OF assms] by (rule length_filter_mono)
  then show "assessed (closed_coverage A ts) \<le> assessed (closed_coverage B ts)"
    by (simp add: closed_coverage_def)
  have "(of_int (int ?a * 100) :: rat) / of_nat (length ts)
        \<le> of_int (int ?b * 100) / of_nat (length ts)"
    using ab by (simp add: divide_right_mono)
  then show "percentage (closed_coverage A ts) \<le> percentage (closed_coverage B ts)"
    by (simp add: closed_coverage_def Math_round_mono)
  have "subseq (filter (is_missing (haystack B)) ts) (filter (is_missing (haystack A)) ts)"
    using is_missing_antimono [OF assms] by (rule subseq_filter_mono)
  then show "subseq (missing (closed_coverage B ts)) (missing (closed_coverage A ts))"
    by (simp add: closed_coverage_def subseq_map)
qed

text \<open>
  Claim C10. If every token of the text \<open>A\<close> is a token of the text \<open>B\<close>, then on every
  requirement list \<open>coverageCheck\<close> gives \<open>B\<close> at least the assessed count and the
  percentage of \<open>A\<close>, and the missing list of \<open>B\<close> is a subsequence of that of \<open>A\<close>. In
  particular this holds when \<open>B\<close> is \<open>A\<close> followed by whitespace and further text.
\<close>

theorem coverageCheck_monotone:
  "(set (tokenize A) \<subseteq> set (tokenize B) \<longrightarrow>
      (\<exists>ra rb. coverageCheck A reqs = Inr ra \<and> coverageCheck B reqs = Inr rb \<and>
         assessed ra \<le> assessed rb \<and> percentage ra \<le> percentage rb \<and>
         subseq (missing rb) (missing ra))) \<and>
   (is_space c \<longrightarrow>
      (\<exists>ra rb. coverageCheck (Some a) reqs = Inr ra \<and>
         coverageCheck (Some (a @ c # extra)) reqs = Inr rb \<and>
         assessed ra \<le> assessed rb \<and> percentage ra \<le> percentage rb \<and>
         subseq (missing rb) (missing ra)))"
proof -
  have mono: "\<exists>ra rb. coverageCheck X reqs = Inr ra \<and> coverageCheck Y reqs = Inr rb \<and>
         assessed ra \<le> assessed rb \<and> percentage ra \<le> percentage rb \<and>
         subseq (missing rb) (missing ra)"
    if "set (tokenize X) \<subseteq> set (tokenize Y)" for X Y
  proof -
    from that have "haystack X \<subseteq> haystack Y" by (simp add: haystack_def)
    from closed_coverage_mono [OF this, of reqs]
      coverageCheck_closed [of X reqs] coverageCheck_closed [of Y reqs]
    show ?thesis by blast
  qed
  have "set (tokenize (Some a)) \<subseteq> set (tokenize (Some (a @ c # extra)))" if "is_space c"
    using tokenize_append [OF that, of a extra] by simp
  with mono show ?thesis by blast
qed

theorem coverageCheck_monotone_witness:
  "set (tokenize (Some ''deck'')) \<subseteq> set (tokenize (Some ''Deck practices.'')) \<and>
   is_space CHR '' '' \<and>
   (\<exists>ra rb. coverageCheck (Some ''deck'') [needle20] = Inr ra \<and>
      coverageCheck (Some ''Deck practices.'') [needle20] = Inr rb \<and>
      assessed ra \<le> assessed rb \<and> percentage ra \<le> percentage rb \<and>
      subseq (missing rb) (missing ra)) \<and>
   (\<exists>ra rb. coverageCheck (Some ''deck'') [needle20] = Inr ra \<and>
      coverageCheck (Some (''deck'' @ CHR '' '' # ''b c d e f g h'')) [needle20] = Inr rb \<and>
      assessed ra \<le> assessed rb \<and> percentage ra \<le> percentage rb \<and>
      subseq (missing rb) (missing ra))"
proof -
  have s: "set (tokenize (Some ''deck'')) \<subseteq> set (tokenize (Some ''Deck practices.''))"
    by code_simp
  have b: "is_space CHR '' ''"
    by (rule is_space_blank)
  from s b
    coverageCheck_monotone [of "Some ''deck''" "Some ''Deck practices.''" "[needle20]"
      "CHR '' ''" "''deck''" "''b c d e f g h''"]
  show ?thesis by blast
qed

text \<open>The scenario of the specification: both criteria are covered.\<close>

lemma coverageCheck_scenario:
  "coverageCheck (Some ''Maintain safe deck practices. Perform mooring operations.'')
     [\<lparr> req_code = Some ''1.1'', req_text = Some ''Maintain safe deck practices and housekeeping.'' \<rparr>,
      \<lparr> req_code = Some ''1.2'', req_text = Some ''Perform mooring and anchoring operations.'' \<rparr>]
   = Inr \<lparr> total_n = 2, assessed = 2, percentage = 100, missing = [] \<rparr>"
  by code_simp

subsection \<open>Unit report builder\<close>

lemma min_Math_round: "min 100 (Math_round x) = Math_round (min 100 x)"
proof (cases "x \<le> 100")
  case True
  then have "Math_round x \<le> Math_round (of_int 100)"
    using Math_round_mono [of x "of_int 100"] by simp
  then have "Math_round x \<le> 100"
    by (simp only: Math_round_of_int)
  with True show ?thesis by (simp add: min_def)
next
  case False
  then have "Math_round (of_int 100) \<le> Math_round x"
    using Math_round_mono [of "of_int 100" x] by simp
  then have "100 \<le> Math_round x"
    by (simp only: Math_round_of_int)
  moreover have "Math_round (100 :: rat) = 100"
    using Math_round_of_int [of 100] by simp
  ultimately show ?thesis using False by (simp add: min_def)
qed

lemma buildReportFromTGA_closed:
  "buildReportFromTGA tx p =
     Inr (assemble (normalize_unit p) (closed_coverage (Some tx) (pcs_of p))
            (closed_coverage (Some tx) (kes_of p)))"
  by (simp add: buildReportFromTGA_def coverageCheck_closed)

text \<open>
  Claim C4. \<open>buildReportFromTGA\<close> returns a report for every payload. With \<open>pcCov\<close> and
  \<open>keCov\<close> the coverage of the performance criteria and of the knowledge items: the
  validity score is the percentage of \<open>pcCov\<close>, with status pass from 85, warning from
  70, else fail; the sufficiency score is
  \<open>round (min 100 (pcCov.percentage * 0.6 + keCov.percentage * 0.4))\<close>, with status pass
  from 90, warning from 75, else fail; authenticity and currency are pass with score
  100; fairness is pass/95, flexibility pass/90, reliability pass/92, and the validity
  principle repeats the validity rule.
\<close>

theorem buildReportFromTGA_scores:
  "\<exists>rep pcCov keCov.
     buildReportFromTGA tx p = Inr rep \<and>
     coverageCheck (Some tx) (pcs_of p) = Inr pcCov \<and>
     coverageCheck (Some tx) (kes_of p) = Inr keCov \<and>
     rep_coverage rep = \<lparr> performanceCriteria = pcCov, knowledge = keCov \<rparr> \<and>
     roe_validity (rulesOfEvidence rep)
       = \<lparr> status = grade 85 70 (percentage pcCov), score = percentage pcCov \<rparr> \<and>
     roe_sufficiency (rulesOfEvidence rep)
       = \<lparr> status = grade 90 75 (sufficiency_of (percentage pcCov) (percentage keCov)),
           score = sufficiency_of (percentage pcCov) (percentage keCov) \<rparr> \<and>
     roe_authenticity (rulesOfEvidence rep) = \<lparr> status = Pass, score = 100 \<rparr> \<and>
     roe_currency (rulesOfEvidence rep) = \<lparr> status = Pass, score = 100 \<rparr> \<and>
     poa_fairness (principlesOfAssessment rep) = \<lparr> status = Pass, score = 95 \<rparr> \<and>
     poa_flexibility (principlesOfAssessment rep) = \<lparr> status = Pass, score = 90 \<rparr> \<and>
     poa_reliability (principlesOfAssessment rep) = \<lparr> status = Pass, score = 92 \<rparr> \<and>
     poa_validity (principlesOfAssessment rep) = roe_validity (rulesOfEvidence rep)"
proof -
  let ?pc = "closed_coverage (Some tx) (pcs_of p)"
  let ?ke = "closed_coverage (Some tx) (kes_of p)"
  let ?rep = "assemble (normalize_unit p) ?pc ?ke"
  have cov: "rep_coverage ?rep = \<lparr> performanceCriteria = ?pc, knowledge = ?ke \<rparr>"
    by (simp add: assemble_def Let_def)
  have v: "roe_validity (rulesOfEvidence ?rep)
       = \<lparr> status = grade 85 70 (percentage ?pc), score = percentage ?pc \<rparr>"
    by (simp add: assemble_def Let_def grade_def)
  have s: "roe_sufficiency (rulesOfEvidence ?rep)
       = \<lparr> status = grade 90 75 (sufficiency_of (percentage ?pc) (percentage ?ke)),
           score = sufficiency_of (percentage ?pc) (percentage ?ke) \<rparr>"
    unfolding assemble_def Let_def grade_def sufficiency_of_def min_Math_round by simp
  have fixed: "roe_authenticity (rulesOfEvidence ?rep) = \<lparr> status = Pass, score = 100 \<rparr>"
    "roe_currency (rulesOfEvidence ?rep) = \<lparr> status = Pass, score = 100 \<rparr>"
    "poa_fairness (principlesOfAssessment ?rep) = \<lparr> status = Pass, score = 95 \<rparr>"
    "poa_flexibility (principlesOfAssessment ?rep) = \<lparr> status = Pass, score = 90 \<rparr>"
    "poa_reliability (principlesOfAssessment ?rep) = \<lparr> status = Pass, score = 92 \<rparr>"
    "poa_validity (principlesOfAssessment ?rep) = roe_validity (rulesOfEvidence ?rep)"
    by (simp_all add: assemble_def Let_def)
  show ?thesis
    using buildReportFromTGA_closed [of tx p] coverageCheck_closed [of "Some tx" "pcs_of p"]
      coverageCheck_closed [of "Some tx" "kes_of p"] cov v s fixed
    by blast
qed

text \<open>
  Claim C5. The gaps of a report are the first five entries at most of \<open>pcCov.missing\<close>,
  each a critical gap of priority HIGH with the description of an unevidenced
  performance criterion, followed by the first five entries at most of
  \<open>keCov.missing\<close>, each an improvement gap of priority MEDIUM with the description of
  knowledge evidence to strengthen. So there are at most ten gaps and at most five
  critical ones, however many performance criteria are missing.
\<close>

theorem buildReportFromTGA_gaps:
  "\<exists>rep pcCov keCov.
     buildReportFromTGA tx p = Inr rep \<and>
     coverageCheck (Some tx) (pcs_of p) = Inr pcCov \<and>
     coverageCheck (Some tx) (kes_of p) = Inr keCov \<and>
     rep_coverage rep = \<lparr> performanceCriteria = pcCov, knowledge = keCov \<rparr> \<and>
     gaps rep = map pc_gap (take 5 (missing pcCov)) @ map ke_gap (take 5 (missing keCov)) \<and>
     length (gaps rep) \<le> 10 \<and>
     length (filter (\<lambda>g. gap_type g = Critical) (gaps rep)) = min 5 (length (missing pcCov)) \<and>
     length (filter (\<lambda>g. gap_type g = Critical) (gaps rep)) \<le> 5 \<and>
     pc_gap x =
       \<lparr> gap_type = Critical, element = x,
         gap_description = ''Performance criterion not clearly evidenced in assessment text.'',
         recommendation = recommendation (pc_gap x), priority = HIGH \<rparr> \<and>
     ke_gap x =
       \<lparr> gap_type = Improvement, element = x,
         gap_description = ''Knowledge evidence coverage could be strengthened.'',
         recommendation = recommendation (ke_gap x), priority = MEDIUM \<rparr>"
proof -
  let ?pc = "closed_coverage (Some tx) (pcs_of p)"
  let ?ke = "closed_coverage (Some tx) (kes_of p)"
  let ?rep = "assemble (normalize_unit p) ?pc ?ke"
  have cov: "rep_coverage ?rep = \<lparr> performanceCriteria = ?pc, knowledge = ?ke \<rparr>"
    by (simp add: assemble_def Let_def)
  have g: "gaps ?rep = map pc_gap (take 5 (missing ?pc)) @ map ke_gap (take 5 (missing ?ke))"
    by (simp add: assemble_def Let_def)
  have l: "length (gaps ?rep) \<le> 10"
    by (simp add: g)
  have pcs: "filter (\<lambda>g. gap_type g = Critical) (map pc_gap xs) = map pc_gap xs" for xs
    by (induction xs) (simp_all add: pc_gap_def)
  have kes: "filter (\<lambda>g. gap_type g = Critical) (map ke_gap xs) = []" for xs
    by (induction xs) (simp_all add: ke_gap_def)
  have c: "length (filter (\<lambda>g. gap_type g = Critical) (gaps ?rep)) = min 5 (length (missing ?pc))"
    by (simp add: g pcs kes min.commute)
  then have c5: "length (filter (\<lambda>g. gap_type g = Critical) (gaps ?rep)) \<le> 5"
    by simp
  have shape: "pc_gap x =
       \<lparr> gap_type = Critical, element = x,
         gap_description = ''Performance criterion not clearly evidenced in assessment text.'',
         recommendation = recommendation (pc_gap x), priority = HIGH \<rparr>"
    "ke_gap x =
       \<lparr> gap_type = Improvement, element = x,
         gap_description = ''Knowledge evidence coverage could be strengthened.'',
         recommendation = recommendation (ke_gap x), priority = MEDIUM \<rparr>"
    by (simp_all add: pc_gap_def ke_gap_def)
  show ?thesis
    using buildReportFromTGA_closed [of tx p] coverageCheck_closed [of "Some tx" "pcs_of p"]
      coverageCheck_closed [of "Some tx" "kes_of p"] cov g l c c5 shape
    by blast
qed

subsection \<open>Multi-unit aggregator\<close>

lemma those_map_Some: "those (map Some xs) = Some xs"
  by (induction xs) simp_all

lemma fold_slots:
  "length slots = length outcomes \<Longrightarrow>
   fold (\<lambda>i slots. if i < length outcomes then slots[i := Some (outcomes ! i)] else slots)
     order slots
   = map (\<lambda>j. if j \<in> set order then Some (outcomes ! j) else slots ! j) [0..<length outcomes]"
proof (induction order arbitrary: slots)
  case Nil
  then show ?case using map_nth [of slots] by simp
next
  case (Cons i order)
  let ?f = "\<lambda>i slots. if i < length outcomes then slots[i := Some (outcomes ! i)] else slots"
  have len: "length (?f i slots) = length outcomes" using Cons.prems by simp
  have "fold ?f (i # order) slots = fold ?f order (?f i slots)"
    by simp
  also have "\<dots> = map (\<lambda>j. if j \<in> set order then Some (outcomes ! j) else ?f i slots ! j)
                      [0..<length outcomes]"
    by (rule Cons.IH [OF len])
  also have "\<dots> = map (\<lambda>j. if j \<in> set (i # order) then Some (outcomes ! j) else slots ! j)
                      [0..<length outcomes]"
  proof (rule map_cong [OF refl])
    fix j assume "j \<in> set [0..<length outcomes]"
    then have "j < length slots" "j < length outcomes" using Cons.prems by simp_all
    then show "(if j \<in> set order then Some (outcomes ! j) else ?f i slots ! j)
             = (if j \<in> set (i # order) then Some (outcomes ! j) else slots ! j)"
      by (simp add: nth_list_update)
  qed
  finally show ?case .
qed

lemma allSettled_all:
  assumes "\<forall>i < length outcomes. i \<in> set order"
  shows "allSettled order outcomes = Some outcomes"
proof -
  have "fold (\<lambda>i slots. if i < length outcomes then slots[i := Some (outcomes ! i)] else slots)
          order (replicate (length outcomes) None)
        = map (\<lambda>j. Some (outcomes ! j)) [0..<length outcomes]"
    using assms by (simp add: fold_slots)
  also have "\<dots> = map Some (map (\<lambda>j. outcomes ! j) [0..<length outcomes])"
    by (simp only: map_map comp_def)
  also have "\<dots> = map Some outcomes"
    by (simp only: map_nth)
  finally show ?thesis
    by (simp add: allSettled_def those_map_Some)
qed

lemma per_unit_failed: "lookup_failed r \<Longrightarrow> per_unit tx c r = Inr (failure_report c)"
  by (auto simp: lookup_failed_def per_unit_def split: settled.splits option.splits)

lemma per_unit_ok:
  "\<not> lookup_failed r \<Longrightarrow>
   \<exists>p. r = Fulfilled (Some p) \<and> per_unit tx c r = buildReportFromTGA tx p"
  by (auto simp: lookup_failed_def per_unit_def split: settled.splits option.splits)

lemma per_unit_total: "\<exists>rep. per_unit tx c r = Inr rep"
  using per_unit_failed [of r tx c] per_unit_ok [of r tx c] buildReportFromTGA_closed
  by (cases "lookup_failed r") auto

lemma map_throwing_total:
  "(\<And>x. \<exists>y. f x = Inr y) \<Longrightarrow>
   \<exists>ys. map_throwing f xs = Inr ys \<and> length ys = length xs \<and>
        (\<forall>i < length xs. f (xs ! i) = Inr (ys ! i))"
proof (induction xs)
  case Nil
  show ?case by simp
next
  case (Cons x xs)
  from Cons.prems obtain y where y: "f x = Inr y" by blast
  from Cons.IH [OF Cons.prems] obtain ys where ys: "map_throwing f xs = Inr ys"
    "length ys = length xs" "\<forall>i < length xs. f (xs ! i) = Inr (ys ! i)" by blast
  have "map_throwing f (x # xs) = Inr (y # ys)"
    using y ys(1) by simp
  moreover have "\<forall>i < length (x # xs). f ((x # xs) ! i) = Inr ((y # ys) ! i)"
    using y ys(3) by (auto simp: nth_Cons split: nat.splits)
  ultimately show ?case using ys(2) by auto
qed

lemma validate_resolved_state:
  assumes ne: "detectedUoCs s \<noteq> []"
    and settled: "\<forall>i < length (detectedUoCs s). i \<in> set order"
  shows "\<exists>reps. validate fetchUoc order s =
           s\<lparr> isProcessing := False, activeTab := Results, reports := reps,
               activeReportIdx := 0 \<rparr> \<and>
         length reps = length (detectedUoCs s) \<and>
         (\<forall>i < length (detectedUoCs s).
            per_unit (assessmentText s) (detectedUoCs s ! i) (fetchUoc (detectedUoCs s ! i))
              = Inr (reps ! i))"
proof -
  let ?codes = "detectedUoCs s"
  let ?f = "\<lambda>(c, r). per_unit (assessmentText s) c r"
  have all: "allSettled order (map fetchUoc ?codes) = Some (map fetchUoc ?codes)"
    using settled by (simp add: allSettled_all)
  have "\<exists>y. ?f x = Inr y" for x
    using per_unit_total [of "assessmentText s" "fst x" "snd x"] by (cases x) simp
  from map_throwing_total [of ?f "zip ?codes (map fetchUoc ?codes)", OF this]
  obtain reps where reps: "map_throwing ?f (zip ?codes (map fetchUoc ?codes)) = Inr reps"
    "length reps = length ?codes"
    "\<forall>i < length ?codes. ?f (zip ?codes (map fetchUoc ?codes) ! i) = Inr (reps ! i)"
    by auto
  have "validate fetchUoc order s =
          s\<lparr> isProcessing := False, activeTab := Results, reports := reps,
              activeReportIdx := 0 \<rparr>"
    using ne all reps(1) by (simp add: validate_def Let_def)
  moreover have "\<forall>i < length ?codes.
      per_unit (assessmentText s) (?codes ! i) (fetchUoc (?codes ! i)) = Inr (reps ! i)"
    using reps(3) by simp
  ultimately show ?thesis using reps(2) by blast
qed

text \<open>
  Claim C6. When codes were detected and every lookup settles, in whatever order,
  \<open>validate\<close> leaves one report per detected code, in the order of the codes. The report
  of a code whose lookup failed (rejected, \<^verbatim>\<open>null\<close>, or a payload with
  \<^verbatim>\<open>found === false\<close>) is the failure report of that code: title
  \<^verbatim>\<open>No TGA details available\<close>, both coverages zero with nothing missing, validity and
  sufficiency fail/0, authenticity and currency warning/50, fairness, flexibility and
  reliability warning/50, and one critical gap of priority HIGH. The report of every
  other code is the one \<open>buildReportFromTGA\<close> builds from its payload.
\<close>

theorem validate_resolved:
  assumes "detectedUoCs s \<noteq> []"
    and "\<forall>i < length (detectedUoCs s). i \<in> set order"
  shows
    "length (reports (validate fetchUoc order s)) = length (detectedUoCs s) \<and>
     (\<forall>i < length (detectedUoCs s).
        (lookup_failed (fetchUoc (detectedUoCs s ! i)) \<longrightarrow>
           reports (validate fetchUoc order s) ! i = failure_report (detectedUoCs s ! i)) \<and>
        (\<not> lookup_failed (fetchUoc (detectedUoCs s ! i)) \<longrightarrow>
           (\<exists>p. fetchUoc (detectedUoCs s ! i) = Fulfilled (Some p) \<and>
                buildReportFromTGA (assessmentText s) p
                  = Inr (reports (validate fetchUoc order s) ! i)))) \<and>
     lookup_failed Rejected \<and> lookup_failed (Fulfilled None) \<and>
     lookup_failed (Fulfilled (Some (p\<lparr> found := Some False \<rparr>))) \<and>
     rep_unit (failure_report c)
       = \<lparr> code = Some c, title = ''No TGA details available'', url = None \<rparr> \<and>
     rep_coverage (failure_report c)
       = \<lparr> performanceCriteria = \<lparr> total_n = 0, assessed = 0, percentage = 0, missing = [] \<rparr>,
           knowledge = \<lparr> total_n = 0, assessed = 0, percentage = 0, missing = [] \<rparr> \<rparr> \<and>
     rulesOfEvidence (failure_report c)
       = \<lparr> roe_validity = \<lparr> status = Fail, score = 0 \<rparr>,
           roe_sufficiency = \<lparr> status = Fail, score = 0 \<rparr>,
           roe_authenticity = \<lparr> status = Warning, score = 50 \<rparr>,
           roe_currency = \<lparr> status = Warning, score = 50 \<rparr> \<rparr> \<and>
     poa_fairness (principlesOfAssessment (failure_report c)) = \<lparr> status = Warning, score = 50 \<rparr> \<and>
     poa_flexibility (principlesOfAssessment (failure_report c)) = \<lparr> status = Warning, score = 50 \<rparr> \<and>
     poa_reliability (principlesOfAssessment (failure_report c)) = \<lparr> status = Warning, score = 50 \<rparr> \<and>
     length (gaps (failure_report c)) = 1 \<and>
     gap_type (hd (gaps (failure_report c))) = Critical \<and>
     priority (hd (gaps (failure_report c))) = HIGH"
proof -
  from validate_resolved_state [OF assms, of fetchUoc]
  obtain reps where reps:
    "validate fetchUoc order s =
       s\<lparr> isProcessing := False, activeTab := Results, reports := reps, activeReportIdx := 0 \<rparr>"
    "length reps = length (detectedUoCs s)"
    "\<forall>i < length (detectedUoCs s).
       per_unit (assessmentText s) (detectedUoCs s ! i) (fetchUoc (detectedUoCs s ! i))
         = Inr (reps ! i)"
    by blast
  have r: "reports (validate fetchUoc order s) = reps"
    by (simp add: reps(1))
  have each: "\<forall>i < length (detectedUoCs s).
        (lookup_failed (fetchUoc (detectedUoCs s ! i)) \<longrightarrow>
           reps ! i = failure_report (detectedUoCs s ! i)) \<and>
        (\<not> lookup_failed (fetchUoc (detectedUoCs s ! i)) \<longrightarrow>
           (\<exists>p. fetchUoc (detectedUoCs s ! i) = Fulfilled (Some p) \<and>
                buildReportFromTGA (assessmentText s) p = Inr (reps ! i)))"
  proof (intro allI impI conjI)
    fix i assume i: "i < length (detectedUoCs s)"
    let ?c = "detectedUoCs s ! i"
    from reps(3) i have pu: "per_unit (assessmentText s) ?c (fetchUoc ?c) = Inr (reps ! i)"
      by blast
    { assume "lookup_failed (fetchUoc ?c)"
      from per_unit_failed [OF this, of "assessmentText s" ?c] pu
      show "reps ! i = failure_report ?c" by simp }
    { assume "\<not> lookup_failed (fetchUoc ?c)"
      from per_unit_ok [OF this, of "assessmentText s" ?c] pu
      show "\<exists>p. fetchUoc ?c = Fulfilled (Some p) \<and>
                buildReportFromTGA (assessmentText s) p = Inr (reps ! i)"
        by auto }
  qed
  have failed: "lookup_failed Rejected" "lookup_failed (Fulfilled None)"
    "lookup_failed (Fulfilled (Some (p\<lparr> found := Some False \<rparr>)))"
    by (simp_all add: lookup_failed_def)
  have shape: "rep_unit (failure_report c)
       = \<lparr> code = Some c, title = ''No TGA details available'', url = None \<rparr>"
    "rep_coverage (failure_report c)
       = \<lparr> performanceCriteria = \<lparr> total_n = 0, assessed = 0, percentage = 0, missing = [] \<rparr>,
           knowledge = \<lparr> total_n = 0, assessed = 0, percentage = 0, missing = [] \<rparr> \<rparr>"
    "rulesOfEvidence (failure_report c)
       = \<lparr> roe_validity = \<lparr> status = Fail, score = 0 \<rparr>,
           roe_sufficiency = \<lparr> status = Fail, score = 0 \<rparr>,
           roe_authenticity = \<lparr> status = Warning, score = 50 \<rparr>,
           roe_currency = \<lparr> status = Warning, score = 50 \<rparr> \<rparr>"
    "poa_fairness (principlesOfAssessment (failure_report c)) = \<lparr> status = Warning, score = 50 \<rparr>"
    "poa_flexibility (principlesOfAssessment (failure_report c)) = \<lparr> status = Warning, score = 50 \<rparr>"
    "poa_reliability (principlesOfAssessment (failure_report c)) = \<lparr> status = Warning, score = 50 \<rparr>"
    "length (gaps (failure_report c)) = 1"
    "gap_type (hd (gaps (failure_report c))) = Critical"
    "priority (hd (gaps (failure_report c))) = HIGH"
    by (simp_all add: failure_report_def empty_coverage_def)
  show ?thesis
    unfolding r using reps(2) each failed shape by blast
qed

lemma detected_two_codes: "detectedUoCs two_codes = [''MARN008'', ''UNKNOWNXYZ'']"
  by (simp add: two_codes_def handleUpload_end_def handleUpload_begin_def initial_state_def
      or_nil_def)

lemma text_two_codes:
  "assessmentText two_codes = ''Maintain safe deck practices. Perform mooring operations.''"
  by (simp add: two_codes_def handleUpload_end_def handleUpload_begin_def initial_state_def
      or_empty_def)

theorem validate_resolved_witness:
  "detectedUoCs two_codes \<noteq> [] \<and>
   length (reports (validate fetch_mock [1, 0] two_codes)) = 2 \<and>
   lookup_failed (fetch_mock ''UNKNOWNXYZ'') \<and>
   reports (validate fetch_mock [1, 0] two_codes) ! 1 = failure_report ''UNKNOWNXYZ'' \<and>
   buildReportFromTGA ''Maintain safe deck practices. Perform mooring operations.'' MARN008
     = Inr (reports (validate fetch_mock [1, 0] two_codes) ! 0)"
proof -
  have ne: "detectedUoCs two_codes \<noteq> []"
    by (simp add: detected_two_codes)
  have settled: "\<forall>i < length (detectedUoCs two_codes). i \<in> set [1, 0]"
    by (auto simp: detected_two_codes)
  have bad: "lookup_failed (fetch_mock ''UNKNOWNXYZ'')"
    by (simp add: fetch_mock_def lookup_failed_def)
  have good: "\<not> lookup_failed (fetch_mock ''MARN008'')"
    "fetch_mock ''MARN008'' = Fulfilled (Some MARN008)"
    by (simp_all add: fetch_mock_def lookup_failed_def MARN008_def)
  note th = validate_resolved [OF ne settled, of fetch_mock]
  from th have len: "length (reports (validate fetch_mock [1, 0] two_codes)) = 2"
    by (simp add: detected_two_codes)
  from th have each: "\<forall>i < length (detectedUoCs two_codes).
        (lookup_failed (fetch_mock (detectedUoCs two_codes ! i)) \<longrightarrow>
           reports (validate fetch_mock [1, 0] two_codes) ! i
             = failure_report (detectedUoCs two_codes ! i)) \<and>
        (\<not> lookup_failed (fetch_mock (detectedUoCs two_codes ! i)) \<longrightarrow>
           (\<exists>p. fetch_mock (detectedUoCs two_codes ! i) = Fulfilled (Some p) \<and>
                buildReportFromTGA (assessmentText two_codes) p
                  = Inr (reports (validate fetch_mock [1, 0] two_codes) ! i)))"
    by blast
  have "1 < length (detectedUoCs two_codes)"
    by (simp add: detected_two_codes)
  with each have "lookup_failed (fetch_mock (detectedUoCs two_codes ! 1)) \<longrightarrow>
        reports (validate fetch_mock [1, 0] two_codes) ! 1
          = failure_report (detectedUoCs two_codes ! 1)"
    by blast
  then have one: "lookup_failed (fetch_mock ''UNKNOWNXYZ'') \<longrightarrow>
        reports (validate fetch_mock [1, 0] two_codes) ! 1 = failure_report ''UNKNOWNXYZ''"
    by (simp add: detected_two_codes)
  have "0 < length (detectedUoCs two_codes)"
    by (simp add: detected_two_codes)
  with each have "\<not> lookup_failed (fetch_mock (detectedUoCs two_codes ! 0)) \<longrightarrow>
        (\<exists>p. fetch_mock (detectedUoCs two_codes ! 0) = Fulfilled (Some p) \<and>
           buildReportFromTGA (assessmentText two_codes) p
             = Inr (reports (validate fetch_mock [1, 0] two_codes) ! 0))"
    by blast
  then have zero: "\<not> lookup_failed (fetch_mock ''MARN008'') \<longrightarrow>
        (\<exists>p. fetch_mock ''MARN008'' = Fulfilled (Some p) \<and>
           buildReportFromTGA (assessmentText two_codes) p
             = Inr (reports (validate fetch_mock [1, 0] two_codes) ! 0))"
    by (simp add: detected_two_codes)
  from zero good have "buildReportFromTGA (assessmentText two_codes) MARN008
      = Inr (reports (validate fetch_mock [1, 0] two_codes) ! 0)"
    by auto
  with ne len bad one show ?thesis
    by (simp add: text_two_codes)
qed

text \<open>
  Claim C7. When no code was detected, \<open>validate\<close> leaves exactly one report: unit code
  \<^verbatim>\<open>N/A\<close>, both coverages zero, the rules and principles at their fixed fail and warning
  entries, and one critical gap.
\<close>

theorem validate_empty:
  "detectedUoCs s = [] \<Longrightarrow>
   validate fetchUoc order s = s\<lparr> activeTab := Results, reports := [no_uoc_report] \<rparr> \<and>
   reports (validate fetchUoc order s) = [no_uoc_report] \<and>
   code (rep_unit no_uoc_report) = Some ''N/A'' \<and>
   rep_coverage no_uoc_report
     = \<lparr> performanceCriteria = \<lparr> total_n = 0, assessed = 0, percentage = 0, missing = [] \<rparr>,
         knowledge = \<lparr> total_n = 0, assessed = 0, percentage = 0, missing = [] \<rparr> \<rparr> \<and>
   rulesOfEvidence no_uoc_report
     = \<lparr> roe_validity = \<lparr> status = Fail, score = 0 \<rparr>,
         roe_sufficiency = \<lparr> status = Fail, score = 0 \<rparr>,
         roe_authenticity = \<lparr> status = Warning, score = 50 \<rparr>,
         roe_currency = \<lparr> status = Warning, score = 50 \<rparr> \<rparr> \<and>
   principlesOfAssessment no_uoc_report
     = \<lparr> poa_fairness = \<lparr> status = Warning, score = 50 \<rparr>,
         poa_flexibility = \<lparr> status = Warning, score = 50 \<rparr>,
         poa_validity = \<lparr> status = Fail, score = 0 \<rparr>,
         poa_reliability = \<lparr> status = Warning, score = 50 \<rparr> \<rparr> \<and>
   length (gaps no_uoc_report) = 1 \<and>
   gap_type (hd (gaps no_uoc_report)) = Critical"
  by (simp add: validate_def no_uoc_report_def empty_coverage_def)

theorem validate_empty_witness:
  "detectedUoCs no_codes = [] \<and>
   reports (validate fetch_mock [] no_codes) = [no_uoc_report] \<and>
   code (rep_unit (hd (reports (validate fetch_mock [] no_codes)))) = Some ''N/A'' \<and>
   length (gaps (hd (reports (validate fetch_mock [] no_codes)))) = 1"
proof -
  have e: "detectedUoCs no_codes = []"
    by (simp add: no_codes_def handleUpload_end_def handleUpload_begin_def initial_state_def
        or_nil_def)
  from validate_empty [OF e, of fetch_mock "[]"] e show ?thesis
    by simp
qed

subsubsection \<open>The selection index\<close>

text \<open>With detected codes, \<open>validate\<close> sets the index to \<open>0\<close>, which is an index of the
  new reports. Without detected codes it returns before doing so and the index stays.\<close>

lemma validate_resolved_index:
  assumes "detectedUoCs s \<noteq> []"
    and "\<forall>i < length (detectedUoCs s). i \<in> set order"
  shows "activeReportIdx (validate fetchUoc order s) = 0"
    and "activeReportIdx (validate fetchUoc order s) < length (reports (validate fetchUoc order s))"
proof -
  from validate_resolved_state [OF assms, of fetchUoc]
  obtain reps where reps:
    "validate fetchUoc order s =
       s\<lparr> isProcessing := False, activeTab := Results, reports := reps, activeReportIdx := 0 \<rparr>"
    "length reps = length (detectedUoCs s)"
    by blast
  show "activeReportIdx (validate fetchUoc order s) = 0"
    by (simp add: reps(1))
  show "activeReportIdx (validate fetchUoc order s) < length (reports (validate fetchUoc order s))"
    using assms(1) by (simp add: reps)
qed

lemma validate_empty_index:
  "detectedUoCs s = [] \<Longrightarrow> activeReportIdx (validate fetchUoc order s) = activeReportIdx s"
  by (simp add: validate_def)

text \<open>
  Claim C8 says that after every rebuild, on the empty-detection path too, the index
  is \<open>0\<close> and is an index of the collection. In the state \<open>overlapping_uploads\<close> no code
  is detected, two reports are shown and the second is selected; \<open>validate\<close> replaces
  the reports by the single no-UoC report and leaves the index at \<open>1\<close>.
\<close>

theorem validate_empty_path_keeps_index:
  "detectedUoCs overlapping_uploads = [] \<and>
   length (reports overlapping_uploads) = 2 \<and>
   activeReportIdx overlapping_uploads = 1 \<and>
   activeReportIdx (validate fetch_mock [] overlapping_uploads) = 1 \<and>
   length (reports (validate fetch_mock [] overlapping_uploads)) = 1 \<and>
   \<not> activeReportIdx (validate fetch_mock [] overlapping_uploads)
       < length (reports (validate fetch_mock [] overlapping_uploads))"
proof -
  let ?s2 = "handleUpload_end
                (Extracted (Some [''MARN008'', ''UNKNOWNXYZ''])
                   (Some ''Maintain safe deck practices. Perform mooring operations.''))
                (handleUpload_begin (Some ''second.txt'')
                   (handleUpload_begin (Some ''first.txt'') initial_state))"
  have codes: "detectedUoCs ?s2 = [''MARN008'', ''UNKNOWNXYZ'']"
    by (simp add: handleUpload_end_def handleUpload_begin_def initial_state_def or_nil_def)
  have ne: "detectedUoCs ?s2 \<noteq> []" by (simp add: codes)
  have settled: "\<forall>i < length (detectedUoCs ?s2). i \<in> set [0, 1]"
    by (auto simp: codes)
  from validate_resolved_state [OF ne settled, of fetch_mock]
  obtain reps where reps:
    "validate fetch_mock [0, 1] ?s2 =
       ?s2\<lparr> isProcessing := False, activeTab := Results, reports := reps,
            activeReportIdx := 0 \<rparr>"
    "length reps = 2"
    by (auto simp: codes)
  have s: "overlapping_uploads =
      ?s2\<lparr> isProcessing := False, activeTab := Upload, reports := reps,
           activeReportIdx := 1, detectedUoCs := [],
           assessmentText := ''Nothing to see.'', uploadError := [] \<rparr>"
    unfolding overlapping_uploads_def reps(1)
    by (simp add: showTab_def selectReport_def handleUpload_end_def reps(2) or_nil_def
        or_empty_def)
  show ?thesis
    unfolding s by (simp add: validate_def reps(2))
qed

end
